theory Spec2Isabelle
  imports Main "HOL-Library.Sublist"
begin

section \<open>The groups API of Outline: data model\<close>

text \<open>
  The development follows the route file of the groups API (eight authenticated
  \<^verbatim>\<open>POST\<close> routes and the provisioning route \<^verbatim>\<open>PATCH groups/:id\<close>).
  Persistent storage is an explicit value of type \<open>db\<close> that every handler takes and
  returns; an exception is a value \<open>Inl e\<close>, returned together with the store as it
  was when the exception was thrown (no handler opens a transaction).
\<close>

type_synonym uuid = string

record user =
  user_id :: uuid
  user_name :: string
  user_email :: string
  user_teamId :: uuid

record group =
  group_id :: uuid
  group_name :: string
  group_teamId :: uuid
  group_createdById :: uuid
  group_createdAt :: nat
  group_updatedAt :: nat

record group_user =
  gu_groupId :: uuid
  gu_userId :: uuid
  gu_createdById :: uuid
  gu_createdAt :: nat

text \<open>The argument of \<^verbatim>\<open>Event.create\<close>; \<open>ev_userId\<close> is absent for the group events.\<close>

record event =
  ev_name :: string
  ev_actorId :: uuid
  ev_teamId :: uuid
  ev_modelId :: uuid
  ev_userId :: "uuid option"
  ev_data_name :: string
  ev_ip :: string

record db =
  db_groups :: "group list"
  db_users :: "user list"
  db_group_users :: "group_user list"
  db_events :: "event list"

datatype error = NotFound | Forbidden | TypeError | DatabaseError

text \<open>
  What a handler reads from the request besides its body: the caller's address, the time
  of the request (the timestamps the ORM writes) and the identifier a created group
  receives.
\<close>

record ctx =
  ctx_ip :: string
  ctx_now :: nat
  ctx_newId :: uuid

subsection \<open>ORM instances\<close>

text \<open>
  A \<^verbatim>\<open>GroupUser\<close> instance carries the joined user (\<^verbatim>\<open>membership.user\<close>), which is
  null when no user row matches. A \<^verbatim>\<open>Group\<close> instance carries its current attribute
  values, the values it was loaded with (Sequelize's \<^verbatim>\<open>_previousDataValues\<close>) and the
  loaded \<^verbatim>\<open>groupMemberships\<close>.
\<close>

record membership =
  m_row :: group_user
  m_user :: "user option"

record group_inst =
  dataValues :: group
  previousDataValues :: group
  groupMemberships :: "membership list"

text \<open>
  \<^verbatim>\<open>group.changed()\<close>: an attribute was assigned a value that differs from the loaded
  one. \<^verbatim>\<open>group.name = name\<close> is the only assignment in the route file.
\<close>

definition changed :: "group_inst \<Rightarrow> bool" where
  "changed g = (dataValues g \<noteq> previousDataValues g)"

definition set_name :: "group_inst \<Rightarrow> string \<Rightarrow> group_inst" where
  "set_name g n = g\<lparr>dataValues := (dataValues g)\<lparr>group_name := n\<rparr>\<rparr>"

definition load_membership :: "db \<Rightarrow> group_user \<Rightarrow> membership" where
  "load_membership s m =
     \<lparr>m_row = m, m_user = find (\<lambda>u. user_id u = gu_userId m) (db_users s)\<rparr>"

text \<open>
  Modelled from the spec: the default scope of the \<^verbatim>\<open>Group\<close> model (server/models is
  not under src/). A fetched group carries its membership rows, each with its user
  joined in when one exists (``memberships that have a resolved user, each annotated
  with embedded user data'').
\<close>

definition load_group :: "db \<Rightarrow> group \<Rightarrow> group_inst" where
  "load_group s g =
     \<lparr>dataValues = g, previousDataValues = g,
      groupMemberships =
        map (load_membership s) (filter (\<lambda>m. gu_groupId m = group_id g) (db_group_users s))\<rparr>"

definition Group_findByPk :: "uuid \<Rightarrow> db \<Rightarrow> group_inst option" where
  "Group_findByPk gid s =
     map_option (load_group s) (find (\<lambda>g. group_id g = gid) (db_groups s))"

definition User_findByPk :: "uuid \<Rightarrow> db \<Rightarrow> user option" where
  "User_findByPk uid s = find (\<lambda>u. user_id u = uid) (db_users s)"

text \<open>\<^verbatim>\<open>GroupUser.findOne({ where: { groupId, userId } })\<close>\<close>

definition GroupUser_findOne :: "uuid \<Rightarrow> uuid \<Rightarrow> db \<Rightarrow> membership option" where
  "GroupUser_findOne gid uid s =
     map_option (load_membership s)
       (find (\<lambda>m. gu_groupId m = gid \<and> gu_userId m = uid) (db_group_users s))"

text \<open>\<^verbatim>\<open>{ rejectOnEmpty: true }\<close>: an empty result is thrown.\<close>

definition rejectOnEmpty :: "'a option \<Rightarrow> error + 'a" where
  "rejectOnEmpty r = (case r of None \<Rightarrow> Inl NotFound | Some x \<Rightarrow> Inr x)"

definition Event_create :: "event \<Rightarrow> db \<Rightarrow> db" where
  "Event_create e s = s\<lparr>db_events := db_events s @ [e]\<rparr>"

text \<open>
  \<^verbatim>\<open>group.save()\<close> writes the instance's attributes to its row and stamps
  \<^verbatim>\<open>updatedAt\<close>; the instance is clean afterwards.
\<close>

definition save :: "group_inst \<Rightarrow> nat \<Rightarrow> db \<Rightarrow> group_inst \<times> db" where
  "save g now s =
     (let row = (dataValues g)\<lparr>group_updatedAt := now\<rparr>
      in (g\<lparr>dataValues := row, previousDataValues := row\<rparr>,
          s\<lparr>db_groups := map (\<lambda>r. if group_id r = group_id row then row else r) (db_groups s)\<rparr>))"

text \<open>
  \<^verbatim>\<open>group.$add("user", user, { through: { createdById } })\<close>: a through row is inserted
  for a pair that has none; for a pair that has one, the through attributes are written
  to it. The group instance is not touched.
\<close>

definition group_add_user :: "group_inst \<Rightarrow> user \<Rightarrow> uuid \<Rightarrow> nat \<Rightarrow> db \<Rightarrow> db" where
  "group_add_user g u creator now s =
     (let gid = group_id (dataValues g); uid = user_id u
      in if list_ex (\<lambda>m. gu_groupId m = gid \<and> gu_userId m = uid) (db_group_users s)
         then s\<lparr>db_group_users :=
                  map (\<lambda>m. if gu_groupId m = gid \<and> gu_userId m = uid
                            then m\<lparr>gu_createdById := creator\<rparr> else m)
                    (db_group_users s)\<rparr>
         else s\<lparr>db_group_users := db_group_users s @
                  [\<lparr>gu_groupId = gid, gu_userId = uid, gu_createdById = creator,
                    gu_createdAt = now\<rparr>]\<rparr>)"

text \<open>\<^verbatim>\<open>group.$remove("user", user)\<close> deletes the through rows of the pair.\<close>

definition group_remove_user :: "group_inst \<Rightarrow> user \<Rightarrow> db \<Rightarrow> db" where
  "group_remove_user g u s =
     s\<lparr>db_group_users :=
         filter (\<lambda>m. \<not> (gu_groupId m = group_id (dataValues g) \<and> gu_userId m = user_id u))
           (db_group_users s)\<rparr>"

text \<open>
  Modelled from the spec: \<^verbatim>\<open>group.destroy()\<close> with the \<^verbatim>\<open>Group\<close> model's hooks
  (server/models is not under src/): ``destroyed by groups.delete (cascades
  memberships)'', ``deletes row''.
\<close>

definition destroy :: "group_inst \<Rightarrow> db \<Rightarrow> db" where
  "destroy g s =
     s\<lparr>db_groups := filter (\<lambda>r. group_id r \<noteq> group_id (dataValues g)) (db_groups s),
       db_group_users :=
         filter (\<lambda>m. gu_groupId m \<noteq> group_id (dataValues g)) (db_group_users s)\<rparr>"


subsection \<open>Policies\<close>

datatype subject = TeamSubject uuid | GroupSubject group | UserSubject user

type_synonym policy = "user \<Rightarrow> string \<Rightarrow> subject \<Rightarrow> bool"

text \<open>
  Modelled from the spec: \<^verbatim>\<open>authorize\<close> of @server/policies is not under src/
  (``authorize(actor, action, subject) --- throws/signals Forbidden''). The policy itself
  is a parameter. A fetch without \<^verbatim>\<open>rejectOnEmpty\<close> hands \<^verbatim>\<open>authorize\<close> null for a
  row that does not exist; a policy grants an action on a subject, so with none the call
  signals Forbidden as well. On success the subject is known to be present.
\<close>

definition authorize :: "policy \<Rightarrow> user \<Rightarrow> string \<Rightarrow> ('a \<Rightarrow> subject) \<Rightarrow> 'a option \<Rightarrow> error + 'a" where
  "authorize can actor action mk target =
     (case target of
        None \<Rightarrow> Inl Forbidden
      | Some t \<Rightarrow> if can actor action (mk t) then Inr t else Inl Forbidden)"

definition group_subject :: "group_inst \<Rightarrow> subject" where
  "group_subject g = GroupSubject (dataValues g)"

section \<open>The handlers\<close>

subsection \<open>groups.info, groups.create, groups.update, groups.delete\<close>

definition groups_info :: "policy \<Rightarrow> user \<Rightarrow> uuid \<Rightarrow> db \<Rightarrow> (error + group_inst) \<times> db" where
  "groups_info can user gid s =
     (case authorize can user ''read'' group_subject (Group_findByPk gid s) of
        Inl e \<Rightarrow> (Inl e, s)
      | Inr grp \<Rightarrow> (Inr grp, s))"


definition groups_update ::
  "policy \<Rightarrow> ctx \<Rightarrow> user \<Rightarrow> uuid \<Rightarrow> string \<Rightarrow> db \<Rightarrow> (error + group_inst) \<times> db" where
  "groups_update can c user gid name s =
     (case authorize can user ''update'' group_subject (Group_findByPk gid s) of
        Inl e \<Rightarrow> (Inl e, s)
      | Inr grp0 \<Rightarrow>
          (let grp = set_name grp0 name
           in if changed grp
              then (case save grp (ctx_now c) s of
                      (grp', s1) \<Rightarrow>
                        (Inr grp',
                         Event_create
                           \<lparr>ev_name = ''groups.update'', ev_actorId = user_id user,
                            ev_teamId = user_teamId user,
                            ev_modelId = group_id (dataValues grp'), ev_userId = None,
                            ev_data_name = name, ev_ip = ctx_ip c\<rparr>
                           s1))
              else (Inr grp, s)))"

definition groups_delete :: "policy \<Rightarrow> ctx \<Rightarrow> user \<Rightarrow> uuid \<Rightarrow> db \<Rightarrow> (error + bool) \<times> db" where
  "groups_delete can c user gid s =
     (case authorize can user ''delete'' group_subject (Group_findByPk gid s) of
        Inl e \<Rightarrow> (Inl e, s)
      | Inr grp \<Rightarrow>
          (Inr True,
           Event_create
             \<lparr>ev_name = ''groups.delete'', ev_actorId = user_id user,
              ev_teamId = group_teamId (dataValues grp),
              ev_modelId = group_id (dataValues grp), ev_userId = None,
              ev_data_name = group_name (dataValues grp), ev_ip = ctx_ip c\<rparr>
             (destroy grp s)))"

subsection \<open>groups.list\<close>

datatype direction = ASC | DESC

text \<open>
  \<^verbatim>\<open>order: [[sort, direction]]\<close>. The sort column and its collation are a parameter: a key
  function into a linear order. Rows with equal keys come in an order SQL leaves open;
  the model takes the stable one.
\<close>

definition order_by :: "('a \<Rightarrow> 'k::linorder) \<Rightarrow> direction \<Rightarrow> 'a list \<Rightarrow> 'a list" where
  "order_by key d xs = (case d of ASC \<Rightarrow> sort_key key xs | DESC \<Rightarrow> rev (sort_key key xs))"

definition paginate :: "nat \<Rightarrow> nat \<Rightarrow> 'a list \<Rightarrow> 'a list" where
  "paginate offset limit xs = take limit (drop offset xs)"

text \<open>
  Modelled from the spec: \<^verbatim>\<open>Group.filterByMember\<close> is a static of the \<^verbatim>\<open>Group\<close> model
  (server/models is not under src/): ``optional filter to groups containing a given
  member''.
\<close>

definition Group_filterByMember :: "uuid option \<Rightarrow> db \<Rightarrow> group list" where
  "Group_filterByMember userId s =
     (case userId of
        None \<Rightarrow> db_groups s
      | Some uid \<Rightarrow>
          filter (\<lambda>g. list_ex (\<lambda>m. gu_groupId m = group_id g \<and> gu_userId m = uid)
                         (db_group_users s))
            (db_groups s))"

text \<open>
  The \<^verbatim>\<open>where\<close> object of groups.list: the team of the caller, and the name when
  \<^verbatim>\<open>name\<close> is truthy (present and not the empty string).
\<close>

definition list_where :: "user \<Rightarrow> string option \<Rightarrow> group \<Rightarrow> bool" where
  "list_where user name g =
     (group_teamId g = user_teamId user \<and>
      (case name of None \<Rightarrow> True | Some n \<Rightarrow> if n \<noteq> [] then group_name g = n else True))"

definition visible_memberships :: "nat \<Rightarrow> group_inst \<Rightarrow> membership list" where
  "visible_memberships max_avatar_display g =
     take max_avatar_display (filter (\<lambda>membership. m_user membership \<noteq> None) (groupMemberships g))"

text \<open>
  The first parameter is \<^verbatim>\<open>MAX_AVATAR_DISPLAY\<close> of @shared/constants, which is not under
  src/. The response is \<^verbatim>\<open>data.groups\<close> and \<^verbatim>\<open>data.groupMemberships\<close> before the
  presenters.
\<close>

definition groups_list ::
  "nat \<Rightarrow> (group \<Rightarrow> 'k::linorder) \<Rightarrow> direction \<Rightarrow> nat \<Rightarrow> nat \<Rightarrow> user \<Rightarrow> uuid option \<Rightarrow>
   string option \<Rightarrow> db \<Rightarrow> (error + group_inst list \<times> membership list) \<times> db" where
  "groups_list max_avatar_display sort_col d offset limit user userId name s =
     (let groups =
            map (load_group s)
              (paginate offset limit
                 (order_by sort_col d (filter (list_where user name) (Group_filterByMember userId s))))
      in (Inr (groups, concat (map (visible_memberships max_avatar_display) groups)), s))"

subsection \<open>groups.memberships\<close>

text \<open>
  \<^verbatim>\<open>Op.iLike\<close> is PostgreSQL's \<^verbatim>\<open>ILIKE\<close>. In a pattern \<^verbatim>\<open>%\<close> stands for any sequence
  of characters, \<^verbatim>\<open>_\<close> for any one character, and a backslash takes the next character
  literally; a pattern that ends in a lone backslash matches nothing here (PostgreSQL
  raises an error; the handler's pattern always ends in \<^verbatim>\<open>%\<close>). Letters are compared
  without case; the model folds the ASCII letters.
\<close>

fun like_match :: "string \<Rightarrow> string \<Rightarrow> bool" where
  "like_match [] s = (s = [])"
| "like_match (p # ps) [] = (p = CHR ''%'' \<and> like_match ps [])"
| "like_match (p # ps) (x # t) =
     (if p = CHR ''%'' then like_match ps (x # t) \<or> like_match (p # ps) t
      else if p = CHR ''_'' then like_match ps t
      else if p = CHR 0x5C then (case ps of [] \<Rightarrow> False | q # qs \<Rightarrow> x = q \<and> like_match qs t)
      else x = p \<and> like_match ps t)"

definition lower_char :: "char \<Rightarrow> char" where
  "lower_char c =
     (let n = of_char c :: nat in if 65 \<le> n \<and> n \<le> 90 then char_of (n + 32) else c)"

definition ilike :: "string \<Rightarrow> string \<Rightarrow> bool" where
  "ilike pattern s = like_match (map lower_char pattern) (map lower_char s)"

text \<open>
  \<^verbatim>\<open>GroupUser.findAll\<close> of groups.memberships: the rows of the group, joined to their
  user (\<^verbatim>\<open>required: true\<close>, so a row without a matching user is left out), the user
  filtered by \<^verbatim>\<open>userWhere\<close> when it is defined, newest first, then the page.
\<close>

definition join_user :: "string option \<Rightarrow> db \<Rightarrow> group_user \<Rightarrow> (group_user \<times> user) option" where
  "join_user userWhere s m =
     (case find (\<lambda>u. user_id u = gu_userId m) (db_users s) of
        None \<Rightarrow> None
      | Some u \<Rightarrow>
          (case userWhere of
             None \<Rightarrow> Some (m, u)
           | Some pattern \<Rightarrow> if ilike pattern (user_name u) then Some (m, u) else None))"

definition GroupUser_findAll ::
  "uuid \<Rightarrow> string option \<Rightarrow> nat \<Rightarrow> nat \<Rightarrow> db \<Rightarrow> (group_user \<times> user) list" where
  "GroupUser_findAll gid userWhere offset limit s =
     paginate offset limit
       (order_by (\<lambda>r. gu_createdAt (fst r)) DESC
          (List.map_filter (join_user userWhere s)
             (filter (\<lambda>m. gu_groupId m = gid) (db_group_users s))))"

definition groups_memberships ::
  "policy \<Rightarrow> nat \<Rightarrow> nat \<Rightarrow> user \<Rightarrow> uuid \<Rightarrow> string option \<Rightarrow> db \<Rightarrow>
   (error + membership list \<times> user list) \<times> db" where
  "groups_memberships can offset limit user gid query s =
     (case authorize can user ''read'' group_subject (Group_findByPk gid s) of
        Inl e \<Rightarrow> (Inl e, s)
      | Inr grp \<Rightarrow>
          (let userWhere =
                 (case query of
                    None \<Rightarrow> None
                  | Some q \<Rightarrow> if q \<noteq> [] then Some (''%'' @ q @ ''%'') else None);
               memberships = GroupUser_findAll gid userWhere offset limit s
           in (Inr (map (\<lambda>r. \<lparr>m_row = fst r, m_user = Some (snd r)\<rparr>) memberships,
                    map snd memberships), s)))"

subsection \<open>groups.add\_user and groups.remove\_user\<close>

definition groups_add_user ::
  "policy \<Rightarrow> ctx \<Rightarrow> user \<Rightarrow> uuid \<Rightarrow> uuid \<Rightarrow> db \<Rightarrow>
   (error + user list \<times> membership list \<times> group_inst list) \<times> db" where
  "groups_add_user can c actor gid userId s =
     (case authorize can actor ''read'' UserSubject (User_findByPk userId s) of
        Inl e \<Rightarrow> (Inl e, s)
      | Inr user \<Rightarrow>
          (case authorize can actor ''update'' group_subject (Group_findByPk gid s) of
             Inl e \<Rightarrow> (Inl e, s)
           | Inr grp \<Rightarrow>
               (case GroupUser_findOne gid userId s of
                  Some membership \<Rightarrow> (Inr ([user], [membership], [grp]), s)
                | None \<Rightarrow>
                    (let s1 = group_add_user grp user (user_id actor) (ctx_now c) s
                     in case rejectOnEmpty (GroupUser_findOne gid userId s1) of
                          Inl e \<Rightarrow> (Inl e, s1)
                        | Inr membership \<Rightarrow>
                            (case rejectOnEmpty (Group_findByPk gid s1) of
                               Inl e \<Rightarrow> (Inl e, s1)
                             | Inr grp' \<Rightarrow>
                                 (Inr ([user], [membership], [grp']),
                                  Event_create
                                    \<lparr>ev_name = ''groups.add_user'',
                                     ev_actorId = user_id actor,
                                     ev_teamId = user_teamId user,
                                     ev_modelId = group_id (dataValues grp'),
                                     ev_userId = Some userId,
                                     ev_data_name = user_name user, ev_ip = ctx_ip c\<rparr>
                                    s1))))))"

definition groups_remove_user ::
  "policy \<Rightarrow> ctx \<Rightarrow> user \<Rightarrow> uuid \<Rightarrow> uuid \<Rightarrow> db \<Rightarrow> (error + group_inst list) \<times> db" where
  "groups_remove_user can c actor gid userId s =
     (case authorize can actor ''update'' group_subject (Group_findByPk gid s) of
        Inl e \<Rightarrow> (Inl e, s)
      | Inr grp \<Rightarrow>
          (case authorize can actor ''read'' UserSubject (User_findByPk userId s) of
             Inl e \<Rightarrow> (Inl e, s)
           | Inr user \<Rightarrow>
               (let s1 = group_remove_user grp user s;
                    s2 = Event_create
                           \<lparr>ev_name = ''groups.remove_user'', ev_actorId = user_id actor,
                            ev_teamId = user_teamId user,
                            ev_modelId = group_id (dataValues grp),
                            ev_userId = Some userId,
                            ev_data_name = user_name user, ev_ip = ctx_ip c\<rparr>
                           s1
                in case rejectOnEmpty (Group_findByPk gid s2) of
                     Inl e \<Rightarrow> (Inl e, s2)
                   | Inr grp' \<Rightarrow> (Inr [grp'], s2))))"

subsection \<open>PATCH groups/:id: the request body\<close>

text \<open>
  The parsed JSON body, with the JavaScript value \<^verbatim>\<open>undefined\<close> that a missing property
  reads as. A key that occurs twice in an object keeps its last value.
\<close>

datatype json =
  JUndefined | JNull | JBool bool | JNum int | JStr string
  | JArr "json list" | JObj "(string \<times> json) list"

text \<open>
  \<^verbatim>\<open>v?.[key]\<close> for the keys the handler reads (\<^verbatim>\<open>Operations\<close>, \<^verbatim>\<open>value\<close>, \<^verbatim>\<open>op\<close>,
  \<^verbatim>\<open>email\<close>): none of them is a property of an array, a string, a number or a boolean.
\<close>

definition opt_prop :: "string \<Rightarrow> json \<Rightarrow> json" where
  "opt_prop key v =
     (case v of
        JObj kvs \<Rightarrow> (case map_of (rev kvs) key of Some x \<Rightarrow> x | None \<Rightarrow> JUndefined)
      | _ \<Rightarrow> JUndefined)"

text \<open>
  \<^verbatim>\<open>v?.[0]\<close>: the first element of an array, the property \<^verbatim>\<open>"0"\<close> of an object, the
  first character of a string.
\<close>

definition opt_index0 :: "json \<Rightarrow> json" where
  "opt_index0 v =
     (case v of
        JArr xs \<Rightarrow> (case xs of [] \<Rightarrow> JUndefined | x # _ \<Rightarrow> x)
      | JObj kvs \<Rightarrow> (case map_of (rev kvs) ''0'' of Some x \<Rightarrow> x | None \<Rightarrow> JUndefined)
      | JStr cs \<Rightarrow> (case cs of [] \<Rightarrow> JUndefined | ch # _ \<Rightarrow> JStr [ch])
      | _ \<Rightarrow> JUndefined)"

text \<open>\<^verbatim>\<open>ctx.request.body?.["Operations"]?.[0]\<close>\<close>

definition operation0 :: "json \<Rightarrow> json" where
  "operation0 body = opt_index0 (opt_prop ''Operations'' body)"

text \<open>\<^verbatim>\<open>ctx.request.body?.["Operations"]?.[0]?.value ?? null\<close>\<close>

definition arrayUsers :: "json \<Rightarrow> json" where
  "arrayUsers body =
     (let v = opt_prop ''value'' (operation0 body)
      in if v = JUndefined \<or> v = JNull then JNull else v)"

text \<open>
  \<^verbatim>\<open>(user) => user.email\<close> throws on \<^verbatim>\<open>null\<close>; \<^verbatim>\<open>arrayUsers.map\<close> throws when
  \<^verbatim>\<open>arrayUsers\<close> is not an array.
\<close>

fun user_email_of :: "json \<Rightarrow> error + json" where
  "user_email_of JNull = Inl TypeError"
| "user_email_of JUndefined = Inl TypeError"
| "user_email_of v = Inr (opt_prop ''email'' v)"

fun map_email :: "json list \<Rightarrow> error + json list" where
  "map_email [] = Inr []"
| "map_email (x # xs) =
     (case user_email_of x of
        Inl e \<Rightarrow> Inl e
      | Inr a \<Rightarrow> (case map_email xs of Inl e \<Rightarrow> Inl e | Inr as \<Rightarrow> Inr (a # as)))"

definition arrayEmailAddresses :: "json \<Rightarrow> error + json list" where
  "arrayEmailAddresses body =
     (case arrayUsers body of JArr xs \<Rightarrow> map_email xs | _ \<Rightarrow> Inl TypeError)"

subsection \<open>PATCH groups/:id: the handler\<close>

definition Group_findOne :: "uuid \<Rightarrow> db \<Rightarrow> group_inst option" where
  "Group_findOne gid s = Group_findByPk gid s"

text \<open>\<^verbatim>\<open>GroupUser.findOne({ where: { groupId: id } })\<close>\<close>

definition GroupUser_findOne_of_group :: "uuid \<Rightarrow> db \<Rightarrow> membership option" where
  "GroupUser_findOne_of_group gid s =
     map_option (load_membership s) (find (\<lambda>m. gu_groupId m = gid) (db_group_users s))"

text \<open>
  A value that the query can compare with the email column: a string, or \<^verbatim>\<open>null\<close> and
  \<^verbatim>\<open>undefined\<close>, both written as \<^verbatim>\<open>NULL\<close>, which equals no email.
\<close>

fun comparable_email :: "json \<Rightarrow> bool" where
  "comparable_email (JStr e) = True"
| "comparable_email JNull = True"
| "comparable_email JUndefined = True"
| "comparable_email v = False"

text \<open>
  \<^verbatim>\<open>User.findAll({ where: { email: arrayEmailAddresses } })\<close>: the users whose email is
  one of the requested values. The query is refused when one of the values is a number,
  a boolean, an object or an array (by the query builder or by the database, which has
  no comparison of a string column with such a value), and \<^verbatim>\<open>User.findAll\<close> throws.
\<close>

definition User_findAll :: "json list \<Rightarrow> db \<Rightarrow> error + user list" where
  "User_findAll emails s =
     (if list_all comparable_email emails
      then Inr (filter (\<lambda>u. JStr (user_email u) \<in> set emails) (db_users s))
      else Inl DatabaseError)"

text \<open>\<^verbatim>\<open>process.env.DESK_UUID || null\<close>: unset and empty both give \<^verbatim>\<open>null\<close>.\<close>

definition authorId :: "string option \<Rightarrow> uuid option" where
  "authorId desk_uuid =
     (case desk_uuid of None \<Rightarrow> None | Some v \<Rightarrow> if v = [] then None else Some v)"

text \<open>
  The variables a per-user task of the handler reads and assigns: its own
  \<^verbatim>\<open>membership\<close>, and the \<^verbatim>\<open>group\<close> and \<^verbatim>\<open>groupUsers\<close> it shares with the other tasks.
\<close>

record patch_vars =
  pv_membership :: "membership option"
  pv_group :: group_inst
  pv_groupUsers :: "membership option"

text \<open>The body of \<^verbatim>\<open>if (!membership) { if (op === "add") { ... } }\<close>.\<close>

definition patch_add :: "ctx \<Rightarrow> uuid \<Rightarrow> user \<Rightarrow> patch_vars \<Rightarrow> db \<Rightarrow> (error + patch_vars) \<times> db" where
  "patch_add c author userModel v s =
     (let s1 = group_add_user (pv_group v) userModel author (ctx_now c) s
      in if changed (pv_group v)
         then (case save (pv_group v) (ctx_now c) s1 of
                 (grp, s2) \<Rightarrow>
                   (let s3 = Event_create
                               \<lparr>ev_name = ''groups.add_user'', ev_actorId = author,
                                ev_teamId = user_teamId userModel,
                                ev_modelId = group_id (dataValues grp),
                                ev_userId = Some (user_id userModel),
                                ev_data_name = user_name userModel, ev_ip = ctx_ip c\<rparr>
                               s2;
                        membership =
                          GroupUser_findOne (group_id (dataValues grp)) (user_id userModel) s3
                    in case rejectOnEmpty (Group_findByPk (group_id (dataValues grp)) s3) of
                         Inl e \<Rightarrow> (Inl e, s3)
                       | Inr grp' \<Rightarrow>
                           (Inr \<lparr>pv_membership = membership, pv_group = grp',
                                 pv_groupUsers = membership\<rparr>, s3)))
         else (Inr v, s1))"

text \<open>The body of \<^verbatim>\<open>if (op === "remove" && membership) { ... }\<close>.\<close>

definition patch_remove :: "ctx \<Rightarrow> uuid \<Rightarrow> user \<Rightarrow> patch_vars \<Rightarrow> db \<Rightarrow> (error + patch_vars) \<times> db" where
  "patch_remove c author userModel v s =
     (let s1 = group_remove_user (pv_group v) userModel s
      in if changed (pv_group v)
         then (case save (pv_group v) (ctx_now c) s1 of
                 (grp, s2) \<Rightarrow>
                   (let s3 = Event_create
                               \<lparr>ev_name = ''groups.remove_user'', ev_actorId = author,
                                ev_teamId = user_teamId userModel,
                                ev_modelId = group_id (dataValues grp),
                                ev_userId = Some (user_id userModel),
                                ev_data_name = user_name userModel, ev_ip = ctx_ip c\<rparr>
                               s2;
                        membership =
                          GroupUser_findOne (group_id (dataValues grp)) (user_id userModel) s3
                    in case rejectOnEmpty (Group_findByPk (group_id (dataValues grp)) s3) of
                         Inl e \<Rightarrow> (Inl e, s3)
                       | Inr grp' \<Rightarrow>
                           (Inr \<lparr>pv_membership = membership, pv_group = grp',
                                 pv_groupUsers = membership\<rparr>, s3)))
         else (Inr v, s1))"

text \<open>
  One task of \<^verbatim>\<open>arrayUserModels.map(async (userModel) => ...)\<close>. \<open>op\<close> is
  \<^verbatim>\<open>Operations[0].op\<close> as read from the body; \<open>groupVars\<close> is the shared \<^verbatim>\<open>group\<close> and
  \<^verbatim>\<open>groupUsers\<close>.
\<close>

definition sync_user ::
  "ctx \<Rightarrow> uuid \<Rightarrow> json \<Rightarrow> uuid \<Rightarrow> user \<Rightarrow> group_inst \<times> membership option \<Rightarrow> db \<Rightarrow>
   (error + group_inst \<times> membership option) \<times> db" where
  "sync_user c gid op author userModel groupVars s =
     (let v0 = \<lparr>pv_membership = GroupUser_findOne gid (user_id userModel) s,
                pv_group = fst groupVars, pv_groupUsers = snd groupVars\<rparr>
      in case (if pv_membership v0 = None \<and> op = JStr ''add''
               then patch_add c author userModel v0 s else (Inr v0, s)) of
           (Inl e, s1) \<Rightarrow> (Inl e, s1)
         | (Inr v1, s1) \<Rightarrow>
             (case (if op = JStr ''remove'' \<and> pv_membership v1 \<noteq> None
                    then patch_remove c author userModel v1 s1 else (Inr v1, s1)) of
                (Inl e, s2) \<Rightarrow> (Inl e, s2)
              | (Inr v2, s2) \<Rightarrow> (Inr (pv_group v2, pv_groupUsers v2), s2)))"

text \<open>
  \<^verbatim>\<open>Promise.all\<close> over the tasks. The tasks are run one after the other in the order of
  \<^verbatim>\<open>arrayUserModels\<close>, and the first exception ends the run.
\<close>

fun sync_all ::
  "ctx \<Rightarrow> uuid \<Rightarrow> json \<Rightarrow> uuid \<Rightarrow> user list \<Rightarrow> group_inst \<times> membership option \<Rightarrow> db \<Rightarrow>
   (error + group_inst \<times> membership option) \<times> db" where
  "sync_all c gid op author [] groupVars s = (Inr groupVars, s)"
| "sync_all c gid op author (userModel # rest) groupVars s =
     (case sync_user c gid op author userModel groupVars s of
        (Inl e, s1) \<Rightarrow> (Inl e, s1)
      | (Inr groupVars1, s1) \<Rightarrow> sync_all c gid op author rest groupVars1 s1)"

record patch_response =
  ok :: bool
  res_group :: group_inst
  res_groupUsers :: "membership option"
  res_arrayUserModels :: "user list"

text \<open>
  The first parameter is the environment variable \<^verbatim>\<open>DESK_UUID\<close>. \<^verbatim>\<open>group instanceof
  SequelizeModel\<close> holds of every group that \<^verbatim>\<open>Group.findOne\<close> returns.
\<close>

definition groups_patch ::
  "string option \<Rightarrow> ctx \<Rightarrow> uuid \<Rightarrow> json \<Rightarrow> db \<Rightarrow> (error + patch_response) \<times> db" where
  "groups_patch desk_uuid c gid body s =
     (case arrayEmailAddresses body of
        Inl e \<Rightarrow> (Inl e, s)
      | Inr emails \<Rightarrow>
          (case rejectOnEmpty (Group_findOne gid s) of
             Inl e \<Rightarrow> (Inl e, s)
           | Inr grp \<Rightarrow>
               (let groupUsers = GroupUser_findOne_of_group gid s
                in case User_findAll emails s of
                     Inl e \<Rightarrow> (Inl e, s)
                   | Inr arrayUserModels \<Rightarrow>
                       (case authorId desk_uuid of
                          None \<Rightarrow>
                            (Inr \<lparr>ok = True, res_group = grp, res_groupUsers = groupUsers,
                                  res_arrayUserModels = arrayUserModels\<rparr>, s)
                        | Some author \<Rightarrow>
                            (case sync_all c gid (opt_prop ''op'' (operation0 body)) author
                                    arrayUserModels (grp, groupUsers) s of
                               (Inl e, s1) \<Rightarrow> (Inl e, s1)
                             | (Inr (grp', groupUsers'), s1) \<Rightarrow>
                                 (Inr \<lparr>ok = True, res_group = grp',
                                       res_groupUsers = groupUsers',
                                       res_arrayUserModels = arrayUserModels\<rparr>, s1))))))"

text \<open>
  An email of the request resolves when a user row carries it.
\<close>

definition resolves :: "db \<Rightarrow> string \<Rightarrow> bool" where
  "resolves s email = list_ex (\<lambda>u. user_email u = email) (db_users s)"

section \<open>Notions of the specification\<close>

text \<open>
  ``Case-insensitively contains'': the query, with its letters folded, is a contiguous
  part of the name, with its letters folded.
\<close>

definition contains_ci :: "string \<Rightarrow> string \<Rightarrow> bool" where
  "contains_ci q name = sublist (map lower_char q) (map lower_char name)"

text \<open>The characters that are not literal in a \<^verbatim>\<open>LIKE\<close> pattern.\<close>

definition wildcard :: "char \<Rightarrow> bool" where
  "wildcard ch = (ch = CHR ''%'' \<or> ch = CHR ''_'' \<or> ch = CHR 0x5C)"

text \<open>The \<^verbatim>\<open>userWhere\<close> pattern that groups.memberships builds from \<^verbatim>\<open>query\<close>.\<close>

definition userWhere_of :: "string option \<Rightarrow> string option" where
  "userWhere_of query =
     (case query of None \<Rightarrow> None | Some q \<Rightarrow> if q \<noteq> [] then Some (''%'' @ q @ ''%'') else None)"

text \<open>
  The body of the provisioning request as the interface table of the specification gives
  it: an object whose \<^verbatim>\<open>Operations\<close> is an array, the first element of which is an object
  with \<^verbatim>\<open>op\<close> (\<^verbatim>\<open>"add"\<close> or \<^verbatim>\<open>"remove"\<close>) and \<^verbatim>\<open>value\<close>, an array of objects with an
  \<^verbatim>\<open>email\<close> string.
\<close>

definition email_entry :: "json \<Rightarrow> bool" where
  "email_entry v = (case v of JObj kvs \<Rightarrow> (case opt_prop ''email'' v of JStr e \<Rightarrow> True | _ \<Rightarrow> False)
                    | _ \<Rightarrow> False)"

definition operation_entry :: "json \<Rightarrow> bool" where
  "operation_entry v =
     (case v of
        JObj kvs \<Rightarrow>
          (opt_prop ''op'' v = JStr ''add'' \<or> opt_prop ''op'' v = JStr ''remove'') \<and>
          (case opt_prop ''value'' v of JArr es \<Rightarrow> list_all email_entry es | _ \<Rightarrow> False)
      | _ \<Rightarrow> False)"

definition operations_shape :: "json \<Rightarrow> bool" where
  "operations_shape body =
     (case body of
        JObj kvs \<Rightarrow>
          (case opt_prop ''Operations'' body of
             JArr ops \<Rightarrow> (case ops of [] \<Rightarrow> False | op0 # _ \<Rightarrow> operation_entry op0)
           | _ \<Rightarrow> False)
      | _ \<Rightarrow> False)"



text \<open>
  ``No partial writes'': when the outcome of a handler is an error, the store it leaves
  is the store it was given.
\<close>

definition unchanged_on_error :: "(error + 'a) \<times> db \<Rightarrow> db \<Rightarrow> bool" where
  "unchanged_on_error outcome s = (case fst outcome of Inl e \<Rightarrow> snd outcome = s | Inr r \<Rightarrow> True)"

section \<open>Example data\<close>

text \<open>
  A store with one group and two users, a policy that allows everything, and the body a
  provisioning system sends: \<^verbatim>\<open>{ Operations: [{ op, value: [{ email }, ...] }] }\<close>.
\<close>

definition allow_all :: policy where
  "allow_all actor action target = True"

definition ex_alice :: user where
  "ex_alice = \<lparr>user_id = ''u-a'', user_name = ''Alice'', user_email = ''a@x.com'',
               user_teamId = ''t1''\<rparr>"

definition ex_jan :: user where
  "ex_jan = \<lparr>user_id = ''u-j'', user_name = ''Jan'', user_email = ''jan@x.com'',
             user_teamId = ''t1''\<rparr>"

definition ex_eng :: group where
  "ex_eng = \<lparr>group_id = ''g1'', group_name = ''Eng'', group_teamId = ''t1'',
             group_createdById = ''u-a'', group_createdAt = 1, group_updatedAt = 1\<rparr>"

definition ex_db :: db where
  "ex_db = \<lparr>db_groups = [ex_eng], db_users = [ex_alice, ex_jan], db_group_users = [],
            db_events = []\<rparr>"

definition ex_ctx :: ctx where
  "ex_ctx = \<lparr>ctx_ip = ''10.0.0.1'', ctx_now = 5, ctx_newId = ''g2''\<rparr>"

definition scim_body :: "string \<Rightarrow> string list \<Rightarrow> json" where
  "scim_body opname emails =
     JObj [(''Operations'',
            JArr [JObj [(''op'', JStr opname),
                        (''value'', JArr (map (\<lambda>e. JObj [(''email'', JStr e)]) emails))]])]"

text \<open>
  The group with three membership rows, the newest of a user that no longer exists.
\<close>

definition ex_members_db :: db where
  "ex_members_db =
     ex_db\<lparr>db_group_users :=
       [\<lparr>gu_groupId = ''g1'', gu_userId = ''u-a'', gu_createdById = ''u-a'', gu_createdAt = 3\<rparr>,
        \<lparr>gu_groupId = ''g1'', gu_userId = ''u-j'', gu_createdById = ''u-a'', gu_createdAt = 4\<rparr>,
        \<lparr>gu_groupId = ''g1'', gu_userId = ''u-gone'', gu_createdById = ''u-a'', gu_createdAt = 6\<rparr>]\<rparr>"


text \<open>
  Two groups with membership rows of both, a policy that denies everything, and a body
  with a number for an email.
\<close>

definition ex_ops :: group where
  "ex_ops = \<lparr>group_id = ''g2'', group_name = ''Ops'', group_teamId = ''t1'',
             group_createdById = ''u-a'', group_createdAt = 2, group_updatedAt = 2\<rparr>"

definition ex_two_groups_db :: db where
  "ex_two_groups_db =
     \<lparr>db_groups = [ex_eng, ex_ops], db_users = [ex_alice, ex_jan],
      db_group_users =
        [\<lparr>gu_groupId = ''g1'', gu_userId = ''u-a'', gu_createdById = ''u-a'', gu_createdAt = 3\<rparr>,
         \<lparr>gu_groupId = ''g2'', gu_userId = ''u-a'', gu_createdById = ''u-a'', gu_createdAt = 4\<rparr>,
         \<lparr>gu_groupId = ''g1'', gu_userId = ''u-j'', gu_createdById = ''u-a'', gu_createdAt = 5\<rparr>],
      db_events = []\<rparr>"



text \<open>
  The response and the store after Jan is added to the group, and the store after the
  first of the two groups is deleted.
\<close>

definition ex_added :: "user list \<times> membership list \<times> group_inst list" where
  "ex_added =
     ([ex_jan],
      [\<lparr>m_row = \<lparr>gu_groupId = ''g1'', gu_userId = ''u-j'', gu_createdById = ''u-a'',
                  gu_createdAt = 5\<rparr>, m_user = Some ex_jan\<rparr>],
      [\<lparr>dataValues = ex_eng, previousDataValues = ex_eng,
        groupMemberships =
          [\<lparr>m_row = \<lparr>gu_groupId = ''g1'', gu_userId = ''u-j'', gu_createdById = ''u-a'',
                      gu_createdAt = 5\<rparr>, m_user = Some ex_jan\<rparr>]\<rparr>])"

definition ex_added_db :: db where
  "ex_added_db =
     ex_db\<lparr>db_group_users :=
             [\<lparr>gu_groupId = ''g1'', gu_userId = ''u-j'', gu_createdById = ''u-a'',
               gu_createdAt = 5\<rparr>],
           db_events :=
             [\<lparr>ev_name = ''groups.add_user'', ev_actorId = ''u-a'', ev_teamId = ''t1'',
               ev_modelId = ''g1'', ev_userId = Some ''u-j'', ev_data_name = ''Jan'',
               ev_ip = ''10.0.0.1''\<rparr>]\<rparr>"

definition ex_deleted_db :: db where
  "ex_deleted_db =
     \<lparr>db_groups = [ex_ops], db_users = [ex_alice, ex_jan],
      db_group_users =
        [\<lparr>gu_groupId = ''g2'', gu_userId = ''u-a'', gu_createdById = ''u-a'', gu_createdAt = 4\<rparr>],
      db_events =
        [\<lparr>ev_name = ''groups.delete'', ev_actorId = ''u-a'', ev_teamId = ''t1'',
          ev_modelId = ''g1'', ev_userId = None, ev_data_name = ''Eng'',
          ev_ip = ''10.0.0.1''\<rparr>]\<rparr>"

section \<open>Properties of the handlers\<close>

subsection \<open>Facts about the ORM operations\<close>

lemma changed_load_group [simp]: "\<not> changed (load_group s g)"
  by (simp add: changed_def load_group_def)

lemma findByPk_unchanged: "Group_findByPk gid s = Some g \<Longrightarrow> \<not> changed g"
  by (auto simp: Group_findByPk_def)

lemma findByPk_id: "Group_findByPk gid s = Some g \<Longrightarrow> group_id (dataValues g) = gid"
  by (auto simp: Group_findByPk_def load_group_def dest: find_Some_iff[THEN iffD1])

lemma findByPk_previous: "Group_findByPk gid s = Some g \<Longrightarrow> previousDataValues g = dataValues g"
  by (auto simp: Group_findByPk_def load_group_def)

lemma Event_create_sel [simp]:
  "db_groups (Event_create e s) = db_groups s"
  "db_users (Event_create e s) = db_users s"
  "db_group_users (Event_create e s) = db_group_users s"
  "db_events (Event_create e s) = db_events s @ [e]"
  by (simp_all add: Event_create_def)

lemma load_group_events [simp]: "load_group (Event_create e s) = load_group s"
  by (rule ext) (simp add: Event_create_def load_group_def load_membership_def)

lemma load_membership_events [simp]: "load_membership (Event_create e s) = load_membership s"
  by (rule ext) (simp add: load_membership_def)

lemma findByPk_events [simp]: "Group_findByPk gid (Event_create e s) = Group_findByPk gid s"
  by (simp add: Group_findByPk_def)

lemma findOne_events [simp]:
  "GroupUser_findOne gid uid (Event_create e s) = GroupUser_findOne gid uid s"
  by (simp add: GroupUser_findOne_def)

lemma User_findByPk_events [simp]: "User_findByPk uid (Event_create e s) = User_findByPk uid s"
  by (simp add: User_findByPk_def)

lemma User_findByPk_id: "User_findByPk uid s = Some u \<Longrightarrow> user_id u = uid"
  by (auto simp: User_findByPk_def dest: find_Some_iff[THEN iffD1])

lemma findOne_None_iff:
  "GroupUser_findOne gid uid s = None \<longleftrightarrow>
     find (\<lambda>m. gu_groupId m = gid \<and> gu_userId m = uid) (db_group_users s) = None"
  by (simp add: GroupUser_findOne_def)

lemma authorize_Inr:
  "authorize can actor action mk target = Inr t \<longleftrightarrow> target = Some t \<and> can actor action (mk t)"
  by (auto simp: authorize_def split: option.splits)

lemma authorize_cases:
  obtains (denied) e where "authorize can actor action mk target = Inl e"
  | (granted) t where "target = Some t" "can actor action (mk t)"
      "authorize can actor action mk target = Inr t"
  by (cases "authorize can actor action mk target") (auto simp: authorize_Inr)

lemma find_map_update:
  "find (\<lambda>r. k r = i) xs = Some x \<Longrightarrow> k row = i
   \<Longrightarrow> find (\<lambda>r. k r = i) (map (\<lambda>r. if k r = i then row else r) xs) = Some row"
  by (induction xs) (auto split: if_splits)

lemma filter_no_match: "find P xs = None \<Longrightarrow> filter (\<lambda>x. \<not> P x) xs = xs"
  by (induction xs) (auto split: if_splits)

lemma find_None_list_ex: "find P xs = None \<longleftrightarrow> \<not> list_ex P xs"
  by (auto simp: find_None_iff list_ex_iff)

lemma find_append_new: "find P xs = None \<Longrightarrow> P x \<Longrightarrow> find P (xs @ [x]) = Some x"
  by (induction xs) (auto split: if_splits)

lemma filter_append_new: "find P xs = None \<Longrightarrow> P x \<Longrightarrow> filter P (xs @ [x]) = [x]"
  by (induction xs) (auto split: if_splits)

lemma find_filter_out: "find P (filter (\<lambda>x. \<not> P x) xs) = None"
  by (induction xs) auto

lemma filter_map_other:
  "(\<And>x. k (f x) = k x) \<Longrightarrow> (\<And>x. P (k x) \<Longrightarrow> f x = x)
   \<Longrightarrow> filter (\<lambda>x. P (k x)) (map f xs) = filter (\<lambda>x. P (k x)) xs"
  by (induction xs) auto

lemma group_add_user_new:
  assumes "GroupUser_findOne (group_id (dataValues g)) (user_id u) s = None"
  shows "group_add_user g u creator now s =
           s\<lparr>db_group_users := db_group_users s @
               [\<lparr>gu_groupId = group_id (dataValues g), gu_userId = user_id u,
                 gu_createdById = creator, gu_createdAt = now\<rparr>]\<rparr>"
  using assms by (simp add: group_add_user_def findOne_None_iff find_None_list_ex)

text \<open>The example store and requests.\<close>

lemma ex_findByPk: "Group_findByPk ''g1'' ex_db = Some (load_group ex_db ex_eng)"
  by (simp add: Group_findByPk_def ex_db_def ex_eng_def)

lemma ex_emails:
  "arrayEmailAddresses (scim_body opname emails) = Inr (map JStr emails)"
proof -
  have "map_email (map (\<lambda>e. JObj [(''email'', JStr e)]) es) = Inr (map JStr es)" for es
    by (induction es) (simp_all add: opt_prop_def)
  then show ?thesis
    by (simp add: arrayEmailAddresses_def arrayUsers_def operation0_def opt_prop_def
        opt_index0_def scim_body_def)
qed

lemma ex_op: "opt_prop ''op'' (operation0 (scim_body opname emails)) = JStr opname"
  by (simp add: operation0_def opt_prop_def opt_index0_def scim_body_def)

subsection \<open>groups.update\<close>

text \<open>
  Claim C3. groups.update with a name equal to the persisted name performs no write and
  emits no audit event: the handler returns the group as fetched and the store as it
  was. With a different name it writes the new name (a later fetch reads it) and appends
  exactly one event, \<^verbatim>\<open>groups.update\<close>, whose \<^verbatim>\<open>data.name\<close> is the new name.
\<close>

theorem groups_update_change_detection:
  assumes found: "Group_findByPk gid s = Some g"
    and allowed: "can user ''update'' (group_subject g)"
  shows "(name = group_name (dataValues g) \<longrightarrow>
            groups_update can c user gid name s = (Inr g, s)) \<and>
         (name \<noteq> group_name (dataValues g) \<longrightarrow>
            (\<exists>g' s' e. groups_update can c user gid name s = (Inr g', s') \<and>
               db_events s' = db_events s @ [e] \<and>
               ev_name e = ''groups.update'' \<and> ev_data_name e = name \<and>
               ev_modelId e = gid \<and>
               group_name (dataValues g') = name \<and>
               map_option (\<lambda>i. group_name (dataValues i)) (Group_findByPk gid s') = Some name))"
proof (intro conjI impI)
  assume "name = group_name (dataValues g)"
  then show "groups_update can c user gid name s = (Inr g, s)"
    using found allowed findByPk_previous[OF found]
    by (simp add: groups_update_def authorize_def set_name_def changed_def)
next
  assume diff: "name \<noteq> group_name (dataValues g)"
  have prev: "previousDataValues g = dataValues g" by (rule findByPk_previous[OF found])
  have gid: "group_id (dataValues g) = gid" by (rule findByPk_id[OF found])
  have ch: "changed (set_name g name)"
    using diff prev by (auto simp: changed_def set_name_def dest: arg_cong[where f=group_name])
  obtain r where r: "find (\<lambda>g. group_id g = gid) (db_groups s) = Some r" "g = load_group s r"
    using found by (auto simp: Group_findByPk_def)
  let ?row = "(dataValues g)\<lparr>group_name := name, group_updatedAt := ctx_now c\<rparr>"
  let ?e = "\<lparr>ev_name = ''groups.update'', ev_actorId = user_id user,
             ev_teamId = user_teamId user, ev_modelId = gid, ev_userId = None,
             ev_data_name = name, ev_ip = ctx_ip c\<rparr>"
  let ?g' = "g\<lparr>dataValues := ?row, previousDataValues := ?row\<rparr>"
  let ?s1 = "s\<lparr>db_groups := map (\<lambda>r. if group_id r = gid then ?row else r) (db_groups s)\<rparr>"
  have sv: "save (set_name g name) (ctx_now c) s = (?g', ?s1)"
    using gid by (simp add: save_def set_name_def Let_def)
  have res: "groups_update can c user gid name s = (Inr ?g', Event_create ?e ?s1)"
    using found allowed ch gid by (simp add: groups_update_def authorize_def sv)
  have "find (\<lambda>g. group_id g = gid) (db_groups ?s1) = Some ?row"
    using find_map_update[OF r(1), of ?row] gid by simp
  then have persisted:
    "map_option (\<lambda>i. group_name (dataValues i)) (Group_findByPk gid (Event_create ?e ?s1)) = Some name"
    by (simp add: Group_findByPk_def load_group_def)
  have ev: "db_events (Event_create ?e ?s1) = db_events s @ [?e]"
    by simp
  show "\<exists>g' s' e. groups_update can c user gid name s = (Inr g', s') \<and>
               db_events s' = db_events s @ [e] \<and>
               ev_name e = ''groups.update'' \<and> ev_data_name e = name \<and>
               ev_modelId e = gid \<and>
               group_name (dataValues g') = name \<and>
               map_option (\<lambda>i. group_name (dataValues i)) (Group_findByPk gid s') = Some name"
    using res persisted ev by (intro exI[of _ ?g'] exI[of _ "Event_create ?e ?s1"] exI[of _ ?e]) simp
qed

theorem groups_update_change_detection_witness:
  "groups_update allow_all ex_ctx ex_alice ''g1'' ''Eng'' ex_db = (Inr (load_group ex_db ex_eng), ex_db) \<and>
   (\<exists>g' s' e. groups_update allow_all ex_ctx ex_alice ''g1'' ''Ops'' ex_db = (Inr g', s') \<and>
       db_events s' = db_events ex_db @ [e] \<and> ev_name e = ''groups.update'' \<and>
       ev_data_name e = ''Ops'' \<and> ev_modelId e = ''g1'' \<and>
       group_name (dataValues g') = ''Ops'' \<and>
       map_option (\<lambda>i. group_name (dataValues i)) (Group_findByPk ''g1'' s') = Some ''Ops'')"
proof -
  have same: "''Eng'' = group_name (dataValues (load_group ex_db ex_eng))"
    by (simp add: load_group_def ex_eng_def)
  have other: "''Ops'' \<noteq> group_name (dataValues (load_group ex_db ex_eng))"
    by (simp add: load_group_def ex_eng_def)
  have may: "allow_all ex_alice ''update'' (group_subject (load_group ex_db ex_eng))"
    by (simp add: allow_all_def)
  show ?thesis
    using groups_update_change_detection[where can = allow_all and user = ex_alice
          and name = "''Eng''" and c = ex_ctx, OF ex_findByPk may]
      groups_update_change_detection[where can = allow_all and user = ex_alice
          and name = "''Ops''" and c = ex_ctx, OF ex_findByPk may]
      same other
    by blast
qed

subsection \<open>groups.remove\_user\<close>

text \<open>
  Claim C4. groups.remove\_user on a pair that has no membership leaves groups, users
  and memberships as they were, still appends a \<^verbatim>\<open>groups.remove_user\<close> event, and answers
  with the group as fetched again after the removal.
\<close>

theorem groups_remove_user_without_membership:
  assumes found: "Group_findByPk gid s = Some g"
    and may_update: "can actor ''update'' (group_subject g)"
    and user: "User_findByPk userId s = Some u"
    and may_read: "can actor ''read'' (UserSubject u)"
    and absent: "GroupUser_findOne gid userId s = None"
  shows "\<exists>s'. groups_remove_user can c actor gid userId s = (Inr [g], s') \<and>
           db_group_users s' = db_group_users s \<and> db_groups s' = db_groups s \<and>
           db_users s' = db_users s \<and>
           db_events s' = db_events s @
             [\<lparr>ev_name = ''groups.remove_user'', ev_actorId = user_id actor,
               ev_teamId = user_teamId u, ev_modelId = gid, ev_userId = Some userId,
               ev_data_name = user_name u, ev_ip = ctx_ip c\<rparr>] \<and>
           Group_findByPk gid s' = Some g"
proof -
  have gid: "group_id (dataValues g) = gid" by (rule findByPk_id[OF found])
  have uid: "user_id u = userId"
    using user by (auto simp: User_findByPk_def dest: find_Some_iff[THEN iffD1])
  have noop: "group_remove_user g u s = s"
    using filter_no_match[OF absent[unfolded findOne_None_iff]] gid uid
    by (simp add: group_remove_user_def)
  show ?thesis
    using found may_update user may_read gid
    by (simp add: groups_remove_user_def authorize_def noop rejectOnEmpty_def)
qed

theorem groups_remove_user_without_membership_witness:
  "\<exists>s'. groups_remove_user allow_all ex_ctx ex_alice ''g1'' ''u-j'' ex_db
           = (Inr [load_group ex_db ex_eng], s') \<and>
        db_group_users s' = db_group_users ex_db \<and> db_groups s' = db_groups ex_db \<and>
        db_users s' = db_users ex_db \<and>
        db_events s' = db_events ex_db @
          [\<lparr>ev_name = ''groups.remove_user'', ev_actorId = user_id ex_alice,
            ev_teamId = user_teamId ex_jan, ev_modelId = ''g1'', ev_userId = Some ''u-j'',
            ev_data_name = user_name ex_jan, ev_ip = ctx_ip ex_ctx\<rparr>] \<and>
        Group_findByPk ''g1'' s' = Some (load_group ex_db ex_eng)"
proof -
  have u: "User_findByPk ''u-j'' ex_db = Some ex_jan"
    by (simp add: User_findByPk_def ex_db_def ex_alice_def ex_jan_def)
  have absent: "GroupUser_findOne ''g1'' ''u-j'' ex_db = None"
    by (simp add: GroupUser_findOne_def ex_db_def)
  have may_update: "allow_all ex_alice ''update'' (group_subject (load_group ex_db ex_eng))"
    and may_read: "allow_all ex_alice ''read'' (UserSubject ex_jan)"
    by (simp_all add: allow_all_def)
  show ?thesis
    by (rule groups_remove_user_without_membership[where can = allow_all and actor = ex_alice,
          OF ex_findByPk may_update u may_read absent])
qed

subsection \<open>groups.add\_user\<close>

text \<open>
  Claim C2. After a successful groups.add\_user the store holds the user, a membership
  of the pair and the group, and the response is exactly these three. A second call for
  the same pair creates nothing and emits nothing (the store stays as the first call
  left it) and returns the same existing user, membership and group. When the pair had no
  membership before the first call, the first call appended exactly one membership row,
  the only row of the pair, and exactly one \<^verbatim>\<open>groups.add_user\<close> event, and wrote nothing
  else; when it had one, the first call wrote nothing either.
\<close>

theorem groups_add_user_twice:
  assumes first: "groups_add_user can c actor gid userId s = (Inr r, s1)"
  shows "\<exists>u m g.
           User_findByPk userId s1 = Some u \<and> GroupUser_findOne gid userId s1 = Some m \<and>
           Group_findByPk gid s1 = Some g \<and> r = ([u], [m], [g]) \<and>
           groups_add_user can c2 actor gid userId s1 = (Inr ([u], [m], [g]), s1) \<and>
           (GroupUser_findOne gid userId s = None \<longrightarrow>
              db_group_users s1 = db_group_users s @
                [\<lparr>gu_groupId = gid, gu_userId = userId, gu_createdById = user_id actor,
                  gu_createdAt = ctx_now c\<rparr>] \<and>
              length (filter (\<lambda>m. gu_groupId m = gid \<and> gu_userId m = userId)
                        (db_group_users s1)) = 1 \<and>
              db_groups s1 = db_groups s \<and> db_users s1 = db_users s \<and>
              db_events s1 = db_events s @
                [\<lparr>ev_name = ''groups.add_user'', ev_actorId = user_id actor,
                  ev_teamId = user_teamId u, ev_modelId = gid, ev_userId = Some userId,
                  ev_data_name = user_name u, ev_ip = ctx_ip c\<rparr>]) \<and>
           (GroupUser_findOne gid userId s \<noteq> None \<longrightarrow> s1 = s)"
proof -
  obtain u where u: "User_findByPk userId s = Some u" "can actor ''read'' (UserSubject u)"
    using first
    by (cases rule: authorize_cases[of can actor "''read''" UserSubject "User_findByPk userId s"])
       (auto simp: groups_add_user_def)
  then have au: "authorize can actor ''read'' UserSubject (User_findByPk userId s) = Inr u"
    by (simp add: authorize_Inr)
  obtain g where g: "Group_findByPk gid s = Some g" "can actor ''update'' (group_subject g)"
    using first au
    by (cases rule: authorize_cases[of can actor "''update''" group_subject "Group_findByPk gid s"])
       (auto simp: groups_add_user_def)
  then have ag: "authorize can actor ''update'' group_subject (Group_findByPk gid s) = Inr g"
    by (simp add: authorize_Inr)
  have gid: "group_id (dataValues g) = gid" by (rule findByPk_id[OF g(1)])
  have uid: "user_id u = userId" by (rule User_findByPk_id[OF u(1)])
  show ?thesis
  proof (cases "GroupUser_findOne gid userId s")
    case (Some m)
    then have res: "r = ([u], [m], [g])" "s1 = s"
      using first au ag by (simp_all add: groups_add_user_def)
    have second: "groups_add_user can c2 actor gid userId s1 = (Inr ([u], [m], [g]), s1)"
      using Some au ag res by (simp add: groups_add_user_def)
    show ?thesis
      using u(1) g(1) Some res second
      by (intro exI[of _ u] exI[of _ m] exI[of _ g]) simp
  next
    case None
    let ?row = "\<lparr>gu_groupId = gid, gu_userId = userId, gu_createdById = user_id actor,
                  gu_createdAt = ctx_now c\<rparr>"
    let ?s' = "s\<lparr>db_group_users := db_group_users s @ [?row]\<rparr>"
    have add: "group_add_user g u (user_id actor) (ctx_now c) s = ?s'"
      using group_add_user_new[of g u s] None gid uid by simp
    have fresh: "find (\<lambda>m. gu_groupId m = gid \<and> gu_userId m = userId) (db_group_users s) = None"
      using None by (simp add: findOne_None_iff)
    have m': "GroupUser_findOne gid userId ?s' = Some (load_membership ?s' ?row)"
      using find_append_new[OF fresh, of ?row] by (simp add: GroupUser_findOne_def)
    obtain row where row: "find (\<lambda>g. group_id g = gid) (db_groups s) = Some row"
        "g = load_group s row"
      using g(1) by (auto simp: Group_findByPk_def)
    have g': "Group_findByPk gid ?s' = Some (load_group ?s' row)"
      using row(1) by (simp add: Group_findByPk_def)
    have subj: "group_subject (load_group ?s' row) = group_subject g"
      using row(2) by (simp add: group_subject_def load_group_def)
    have u': "User_findByPk userId ?s' = Some u"
      using u(1) by (simp add: User_findByPk_def)
    let ?e = "\<lparr>ev_name = ''groups.add_user'', ev_actorId = user_id actor,
                ev_teamId = user_teamId u, ev_modelId = gid, ev_userId = Some userId,
                ev_data_name = user_name u, ev_ip = ctx_ip c\<rparr>"
    have gid': "group_id (dataValues (load_group ?s' row)) = gid"
      using findByPk_id[OF g'] .
    have res: "r = ([u], [load_membership ?s' ?row], [load_group ?s' row])"
        "s1 = Event_create ?e ?s'"
      using first au ag None add m' g' gid'
      by (simp_all add: groups_add_user_def rejectOnEmpty_def Let_def)
    have fu: "User_findByPk userId s1 = Some u"
      and fm: "GroupUser_findOne gid userId s1 = Some (load_membership ?s' ?row)"
      and fg: "Group_findByPk gid s1 = Some (load_group ?s' row)"
      using res(2) u' m' g' by simp_all
    have second: "groups_add_user can c2 actor gid userId s1
                    = (Inr ([u], [load_membership ?s' ?row], [load_group ?s' row]), s1)"
      using fu fm fg u(2) g(2) subj
      by (simp add: groups_add_user_def authorize_def)
    have rows: "db_group_users s1 = db_group_users s @ [?row]"
      and groups: "db_groups s1 = db_groups s" and users: "db_users s1 = db_users s"
      and ev: "db_events s1 = db_events s @ [?e]"
      using res(2) by simp_all
    have one: "length (filter (\<lambda>m. gu_groupId m = gid \<and> gu_userId m = userId) (db_group_users s1)) = 1"
      using filter_append_new[OF fresh, of ?row] rows by simp
    show ?thesis
      using fu fm fg res(1) second rows one groups users ev None
      by (intro exI[of _ u] exI[of _ "load_membership ?s' ?row"] exI[of _ "load_group ?s' row"])
         simp
  qed
qed

theorem groups_add_user_twice_witness:
  "groups_add_user allow_all ex_ctx ex_alice ''g1'' ''u-j'' ex_db = (Inr ex_added, ex_added_db) \<and>
   GroupUser_findOne ''g1'' ''u-j'' ex_db = None \<and>
   (\<exists>u m g.
      User_findByPk ''u-j'' ex_added_db = Some u \<and>
      GroupUser_findOne ''g1'' ''u-j'' ex_added_db = Some m \<and>
      Group_findByPk ''g1'' ex_added_db = Some g \<and> ex_added = ([u], [m], [g]) \<and>
      groups_add_user allow_all (ex_ctx\<lparr>ctx_now := 9\<rparr>) ex_alice ''g1'' ''u-j'' ex_added_db
        = (Inr ([u], [m], [g]), ex_added_db) \<and>
      (GroupUser_findOne ''g1'' ''u-j'' ex_db = None \<longrightarrow>
         db_group_users ex_added_db = db_group_users ex_db @
           [\<lparr>gu_groupId = ''g1'', gu_userId = ''u-j'', gu_createdById = user_id ex_alice,
             gu_createdAt = ctx_now ex_ctx\<rparr>] \<and>
         length (filter (\<lambda>m. gu_groupId m = ''g1'' \<and> gu_userId m = ''u-j'')
                   (db_group_users ex_added_db)) = 1 \<and>
         db_groups ex_added_db = db_groups ex_db \<and> db_users ex_added_db = db_users ex_db \<and>
         db_events ex_added_db = db_events ex_db @
           [\<lparr>ev_name = ''groups.add_user'', ev_actorId = user_id ex_alice,
             ev_teamId = user_teamId u, ev_modelId = ''g1'', ev_userId = Some ''u-j'',
             ev_data_name = user_name u, ev_ip = ctx_ip ex_ctx\<rparr>]) \<and>
      (GroupUser_findOne ''g1'' ''u-j'' ex_db \<noteq> None \<longrightarrow> ex_added_db = ex_db))"
proof -
  have first: "groups_add_user allow_all ex_ctx ex_alice ''g1'' ''u-j'' ex_db
                 = (Inr ex_added, ex_added_db)"
    by code_simp
  have absent: "GroupUser_findOne ''g1'' ''u-j'' ex_db = None"
    by (simp add: GroupUser_findOne_def ex_db_def)
  show ?thesis
    by (intro conjI first absent
          groups_add_user_twice[OF first, where ?c2.0 = "ex_ctx\<lparr>ctx_now := 9\<rparr>"])
qed

subsection \<open>groups.delete\<close>

text \<open>
  Claim C6 as stated fails in its last part: after groups.delete, groups.info on the same
  id does not fail with NotFound. The fetch of groups.info has no \<^verbatim>\<open>rejectOnEmpty\<close>, so
  it raises nothing for the missing row, and the request fails in \<^verbatim>\<open>authorize\<close>, with
  Forbidden.
\<close>

theorem groups_info_after_delete_counterexample:
  "fst (groups_delete allow_all ex_ctx ex_alice ''g1'' ex_two_groups_db) = Inr True \<and>
   fst (groups_info allow_all ex_alice ''g1''
          (snd (groups_delete allow_all ex_ctx ex_alice ''g1'' ex_two_groups_db)))
     = Inl Forbidden \<and>
   Forbidden \<noteq> NotFound"
  by code_simp

text \<open>
  Claim C6, amended in its last part. groups.delete removes the group row and all
  membership rows of the group and no other row, appends exactly one \<^verbatim>\<open>groups.delete\<close>
  event whose \<^verbatim>\<open>data.name\<close> is the name the group had, and every later groups.info on the
  same id fails: its fetch finds no row, and \<^verbatim>\<open>authorize\<close>, given no group, signals
  Forbidden.
\<close>

theorem groups_delete_then_info:
  assumes found: "Group_findByPk gid s = Some g"
    and allowed: "can user ''delete'' (group_subject g)"
  shows "\<exists>s'. groups_delete can c user gid s = (Inr True, s') \<and>
           db_groups s' = filter (\<lambda>r. group_id r \<noteq> gid) (db_groups s) \<and>
           db_group_users s' = filter (\<lambda>m. gu_groupId m \<noteq> gid) (db_group_users s) \<and>
           db_users s' = db_users s \<and>
           db_events s' = db_events s @
             [\<lparr>ev_name = ''groups.delete'', ev_actorId = user_id user,
               ev_teamId = group_teamId (dataValues g), ev_modelId = gid, ev_userId = None,
               ev_data_name = group_name (dataValues g), ev_ip = ctx_ip c\<rparr>] \<and>
           Group_findByPk gid s' = None \<and>
           groups_info can' user' gid s' = (Inl Forbidden, s')"
proof -
  have gid: "group_id (dataValues g) = gid" by (rule findByPk_id[OF found])
  let ?e = "\<lparr>ev_name = ''groups.delete'', ev_actorId = user_id user,
              ev_teamId = group_teamId (dataValues g), ev_modelId = gid, ev_userId = None,
              ev_data_name = group_name (dataValues g), ev_ip = ctx_ip c\<rparr>"
  let ?s' = "Event_create ?e (destroy g s)"
  have res: "groups_delete can c user gid s = (Inr True, ?s')"
    using found allowed gid by (simp add: groups_delete_def authorize_def)
  have gone: "Group_findByPk gid ?s' = None"
    using find_filter_out[of "\<lambda>r. group_id r = gid" "db_groups s"] gid
    by (simp add: Group_findByPk_def destroy_def)
  have info: "groups_info can' user' gid ?s' = (Inl Forbidden, ?s')"
    using gone by (simp add: groups_info_def authorize_def)
  show ?thesis
    using res gone info gid by (intro exI[of _ ?s']) (simp add: destroy_def)
qed

theorem groups_delete_then_info_witness:
  "groups_delete allow_all ex_ctx ex_alice ''g1'' ex_two_groups_db = (Inr True, ex_deleted_db) \<and>
   groups_info allow_all ex_jan ''g1'' ex_deleted_db = (Inl Forbidden, ex_deleted_db) \<and>
   (\<exists>s'. groups_delete allow_all ex_ctx ex_alice ''g1'' ex_two_groups_db = (Inr True, s') \<and>
     db_groups s' = filter (\<lambda>r. group_id r \<noteq> ''g1'') (db_groups ex_two_groups_db) \<and>
     db_group_users s' = filter (\<lambda>m. gu_groupId m \<noteq> ''g1'') (db_group_users ex_two_groups_db) \<and>
     db_users s' = db_users ex_two_groups_db \<and>
     db_events s' = db_events ex_two_groups_db @
       [\<lparr>ev_name = ''groups.delete'', ev_actorId = user_id ex_alice,
         ev_teamId = group_teamId (dataValues (load_group ex_two_groups_db ex_eng)),
         ev_modelId = ''g1'', ev_userId = None,
         ev_data_name = group_name (dataValues (load_group ex_two_groups_db ex_eng)),
         ev_ip = ctx_ip ex_ctx\<rparr>] \<and>
     Group_findByPk ''g1'' s' = None \<and>
     groups_info allow_all ex_jan ''g1'' s' = (Inl Forbidden, s'))"
proof -
  have found: "Group_findByPk ''g1'' ex_two_groups_db = Some (load_group ex_two_groups_db ex_eng)"
    by (simp add: Group_findByPk_def ex_two_groups_db_def ex_eng_def)
  have may: "allow_all ex_alice ''delete'' (group_subject (load_group ex_two_groups_db ex_eng))"
    by (simp add: allow_all_def)
  have deleted: "groups_delete allow_all ex_ctx ex_alice ''g1'' ex_two_groups_db
                   = (Inr True, ex_deleted_db)"
    by code_simp
  have info: "groups_info allow_all ex_jan ''g1'' ex_deleted_db = (Inl Forbidden, ex_deleted_db)"
    by code_simp
  show ?thesis
    by (intro conjI deleted info
          groups_delete_then_info[where can = allow_all and user = ex_alice, OF found may])
qed

subsection \<open>groups.list\<close>

lemma set_paginate: "set (paginate offset limit xs) \<subseteq> set xs"
  unfolding paginate_def
  by (meson set_take_subset set_drop_subset subset_trans)

lemma set_order_by [simp]: "set (order_by key d xs) = set xs"
  by (cases d) (simp_all add: order_by_def)

lemma length_order_by [simp]: "length (order_by key d xs) = length xs"
  by (cases d) (simp_all add: order_by_def)

lemma paginate_all: "length xs \<le> limit \<Longrightarrow> paginate 0 limit xs = xs"
  by (simp add: paginate_def)

lemma sorted_order_by_DESC: "sorted_wrt (\<lambda>a b. key b \<le> key a) (order_by key DESC xs)"
proof -
  have "sorted_wrt (\<lambda>a b. key a \<le> key b) (sort_key key xs)"
    using sorted_sort_key[of key xs] by (simp add: sorted_map)
  then show ?thesis
    by (simp add: order_by_def sorted_wrt_rev)
qed

lemma sorted_wrt_paginate: "sorted_wrt P xs \<Longrightarrow> sorted_wrt P (paginate offset limit xs)"
  by (simp add: paginate_def sorted_wrt_take sorted_wrt_drop)

lemma load_group_dataValues [simp]: "dataValues (load_group s g) = g"
  by (simp add: load_group_def)

lemma set_filterByMember:
  "g \<in> set (Group_filterByMember userId s) \<longleftrightarrow>
     g \<in> set (db_groups s) \<and>
     (case userId of None \<Rightarrow> True
      | Some uid \<Rightarrow> list_ex (\<lambda>m. gu_groupId m = group_id g \<and> gu_userId m = uid) (db_group_users s))"
  by (auto simp: Group_filterByMember_def split: option.splits)

text \<open>
  Claim C8 as stated fails at the empty name: \<^verbatim>\<open>if (name)\<close> takes the empty string for
  no name, so a request with \<^verbatim>\<open>name: ""\<close> is not restricted to groups of that name. It
  returns the group named Eng.
\<close>

theorem groups_list_empty_name_counterexample:
  "groups_list 8 group_updatedAt DESC 0 10 ex_alice None (Some []) ex_db =
     (Inr ([load_group ex_db ex_eng], []), ex_db) \<and>
   group_name (dataValues (load_group ex_db ex_eng)) \<noteq> []"
  by code_simp

text \<open>
  Claim C8, amended: the name restricts the result when it is given and not empty.
  groups.list never writes. Every group it returns is a group row of the caller's team,
  has the requested name when a non-empty name is given, and has the requested user as a
  member when a user is given. The memberships of the response are, group by group in
  the order of the returned groups, the group's membership rows whose user is resolved,
  cut to at most \<^verbatim>\<open>MAX_AVATAR_DISPLAY\<close> per group.
\<close>

theorem groups_list_scope:
  "\<exists>groups. groups_list max_avatar_display sort_col d offset limit user userId name s =
      (Inr (map (load_group s) groups,
            concat (map (\<lambda>g. take max_avatar_display
                                 (filter (\<lambda>membership. m_user membership \<noteq> None)
                                    (map (load_membership s)
                                       (filter (\<lambda>m. gu_groupId m = group_id g) (db_group_users s)))))
                      groups)), s) \<and>
      (\<forall>g\<in>set groups.
         g \<in> set (db_groups s) \<and> group_teamId g = user_teamId user \<and>
         (case name of None \<Rightarrow> True | Some n \<Rightarrow> n = [] \<or> group_name g = n) \<and>
         (case userId of None \<Rightarrow> True
          | Some uid \<Rightarrow> list_ex (\<lambda>m. gu_groupId m = group_id g \<and> gu_userId m = uid)
                          (db_group_users s)) \<and>
         length (visible_memberships max_avatar_display (load_group s g)) \<le> max_avatar_display \<and>
         list_all (\<lambda>membership. m_user membership \<noteq> None)
           (visible_memberships max_avatar_display (load_group s g)))"
proof -
  let ?groups = "paginate offset limit
                   (order_by sort_col d (filter (list_where user name) (Group_filterByMember userId s)))"
  have vis: "visible_memberships max_avatar_display (load_group s g) =
               take max_avatar_display
                 (filter (\<lambda>membership. m_user membership \<noteq> None)
                    (map (load_membership s)
                       (filter (\<lambda>m. gu_groupId m = group_id g) (db_group_users s))))" for g
    by (simp add: visible_memberships_def load_group_def)
  have res: "groups_list max_avatar_display sort_col d offset limit user userId name s =
      (Inr (map (load_group s) ?groups,
            concat (map (\<lambda>g. take max_avatar_display
                                 (filter (\<lambda>membership. m_user membership \<noteq> None)
                                    (map (load_membership s)
                                       (filter (\<lambda>m. gu_groupId m = group_id g) (db_group_users s)))))
                      ?groups)), s)"
    by (simp add: groups_list_def Let_def comp_def vis)
  have scope: "g \<in> set (db_groups s) \<and> group_teamId g = user_teamId user \<and>
         (case name of None \<Rightarrow> True | Some n \<Rightarrow> n = [] \<or> group_name g = n) \<and>
         (case userId of None \<Rightarrow> True
          | Some uid \<Rightarrow> list_ex (\<lambda>m. gu_groupId m = group_id g \<and> gu_userId m = uid)
                          (db_group_users s))" if "g \<in> set ?groups" for g
  proof -
    have "g \<in> set (filter (list_where user name) (Group_filterByMember userId s))"
      using that set_paginate[of offset limit] by fastforce
    then show ?thesis
      by (auto simp: set_filterByMember list_where_def split: option.splits if_splits)
  qed
  have bound: "length (visible_memberships max_avatar_display (load_group s g)) \<le> max_avatar_display"
    and resolved: "list_all (\<lambda>membership. m_user membership \<noteq> None)
           (visible_memberships max_avatar_display (load_group s g))" for g
    by (auto simp: visible_memberships_def list_all_iff dest: in_set_takeD)
  show ?thesis
    using res scope bound resolved by (intro exI[of _ ?groups]) blast
qed

theorem groups_list_scope_witness:
  "groups_list 1 group_updatedAt ASC 0 10 ex_alice (Some ''u-j'') (Some ''Eng'') ex_members_db =
     (Inr ([load_group ex_members_db ex_eng],
           [\<lparr>m_row = \<lparr>gu_groupId = ''g1'', gu_userId = ''u-a'', gu_createdById = ''u-a'',
                       gu_createdAt = 3\<rparr>, m_user = Some ex_alice\<rparr>]), ex_members_db) \<and>
   (\<exists>groups. groups_list 1 group_updatedAt ASC 0 10 ex_alice (Some ''u-j'') (Some ''Eng'') ex_members_db =
      (Inr (map (load_group ex_members_db) groups,
            concat (map (\<lambda>g. take 1
                                 (filter (\<lambda>membership. m_user membership \<noteq> None)
                                    (map (load_membership ex_members_db)
                                       (filter (\<lambda>m. gu_groupId m = group_id g)
                                          (db_group_users ex_members_db)))))
                      groups)), ex_members_db) \<and>
      (\<forall>g\<in>set groups.
         g \<in> set (db_groups ex_members_db) \<and> group_teamId g = user_teamId ex_alice \<and>
         (case Some ''Eng'' of None \<Rightarrow> True | Some n \<Rightarrow> n = [] \<or> group_name g = n) \<and>
         (case Some ''u-j'' of None \<Rightarrow> True
          | Some uid \<Rightarrow> list_ex (\<lambda>m. gu_groupId m = group_id g \<and> gu_userId m = uid)
                          (db_group_users ex_members_db)) \<and>
         length (visible_memberships 1 (load_group ex_members_db g)) \<le> 1 \<and>
         list_all (\<lambda>membership. m_user membership \<noteq> None)
           (visible_memberships 1 (load_group ex_members_db g))))"
proof -
  have "groups_list 1 group_updatedAt ASC 0 10 ex_alice (Some ''u-j'') (Some ''Eng'') ex_members_db =
     (Inr ([load_group ex_members_db ex_eng],
           [\<lparr>m_row = \<lparr>gu_groupId = ''g1'', gu_userId = ''u-a'', gu_createdById = ''u-a'',
                       gu_createdAt = 3\<rparr>, m_user = Some ex_alice\<rparr>]), ex_members_db)"
    by code_simp
  then show ?thesis
    using groups_list_scope[of 1 group_updatedAt ASC 0 10 ex_alice "Some ''u-j''" "Some ''Eng''"
        ex_members_db]
    by blast
qed

subsection \<open>groups.memberships\<close>

text \<open>
  A pattern \<^verbatim>\<open>%q%\<close> whose \<open>q\<close> has no wildcard matches exactly the strings that contain
  \<open>q\<close>.
\<close>

lemma wildcard_code: "wildcard ch \<longleftrightarrow> (of_char ch :: nat) = 37 \<or> (of_char ch :: nat) = 95 \<or> (of_char ch :: nat) = 92"
proof -
  have "ch = CHR ''%'' \<longleftrightarrow> (of_char ch :: nat) = of_char (CHR ''%'')"
    "ch = CHR ''_'' \<longleftrightarrow> (of_char ch :: nat) = of_char (CHR ''_'')"
    "ch = CHR 0x5C \<longleftrightarrow> (of_char ch :: nat) = of_char (CHR 0x5C)"
    by (simp_all only: of_char_eq_iff)
  then show ?thesis
    unfolding wildcard_def by simp
qed

lemma lower_char_wildcard [simp]: "wildcard (lower_char ch) = wildcard ch"
proof (cases "65 \<le> (of_char ch :: nat) \<and> (of_char ch :: nat) \<le> 90")
  case True
  then have "of_char (lower_char ch) = (of_char ch :: nat) + 32"
    by (simp add: lower_char_def Let_def)
  then show ?thesis using True unfolding wildcard_code by arith
next
  case False
  then have "lower_char ch = ch" unfolding lower_char_def Let_def by (rule if_not_P)
  then show ?thesis by simp
qed

lemma lower_char_percent [simp]: "lower_char CHR ''%'' = CHR ''%''"
  by (simp add: lower_char_def)

lemma like_match_percent [simp]: "like_match ''%'' s"
  by (induction s) auto

lemma like_match_any_prefix:
  "like_match (CHR ''%'' # p) s \<longleftrightarrow> (\<exists>ss. suffix ss s \<and> like_match p ss)"
proof (induction s)
  case Nil
  then show ?case by (cases p) auto
next
  case (Cons x t)
  then show ?case by (auto simp: suffix_Cons)
qed

lemma like_match_literal:
  "\<not> list_ex wildcard q \<Longrightarrow> like_match (q @ p) s \<longleftrightarrow> (\<exists>t. s = q @ t \<and> like_match p t)"
proof (induction q arbitrary: s)
  case Nil
  then show ?case by simp
next
  case (Cons ch q)
  then show ?case by (cases s) (auto simp: wildcard_def)
qed

lemma like_match_contains:
  assumes "\<not> list_ex wildcard q"
  shows "like_match (CHR ''%'' # q @ ''%'') s \<longleftrightarrow> sublist q s"
proof -
  have "like_match (CHR ''%'' # q @ ''%'') s \<longleftrightarrow> (\<exists>ss. suffix ss s \<and> (\<exists>t. ss = q @ t))"
    using like_match_literal[OF assms, of "''%''"] by (simp add: like_match_any_prefix)
  also have "\<dots> \<longleftrightarrow> sublist q s"
    by (auto simp: sublist_def suffix_def)
  finally show ?thesis .
qed

lemma ilike_contains:
  assumes "\<not> list_ex wildcard q"
  shows "ilike (CHR ''%'' # q @ ''%'') s \<longleftrightarrow> sublist (map lower_char q) (map lower_char s)"
proof -
  have "\<not> list_ex wildcard (map lower_char q)"
    using assms by (simp add: list_ex_iff)
  from like_match_contains[OF this] show ?thesis
    by (simp add: ilike_def)
qed

lemma set_map_filter: "y \<in> set (List.map_filter f xs) \<longleftrightarrow> (\<exists>x\<in>set xs. f x = Some y)"
  by (induction xs) (auto split: option.splits)

lemma length_map_filter_le: "length (List.map_filter f xs) \<le> length xs"
  by (induction xs) (auto simp: List.map_filter_simps split: option.splits)

lemma join_user_Some:
  "join_user userWhere s m = Some r \<longleftrightarrow>
     fst r = m \<and> User_findByPk (gu_userId m) s = Some (snd r) \<and>
     (case userWhere of None \<Rightarrow> True | Some pattern \<Rightarrow> ilike pattern (user_name (snd r)))"
  by (cases r) (auto simp: join_user_def User_findByPk_def split: option.splits)

lemma userWhere_contains:
  assumes "case query of None \<Rightarrow> True | Some q \<Rightarrow> \<not> list_ex wildcard q"
  shows "(case userWhere_of query of None \<Rightarrow> True | Some pattern \<Rightarrow> ilike pattern name)
         \<longleftrightarrow> (case query of None \<Rightarrow> True | Some q \<Rightarrow> contains_ci q name)"
  using assms
  by (auto simp: userWhere_of_def contains_ci_def ilike_contains split: option.splits)

lemma groups_memberships_rows:
  assumes "Group_findByPk gid s = Some g" and "can user ''read'' (group_subject g)"
  shows "groups_memberships can offset limit user gid query s =
           (let rows = GroupUser_findAll gid (userWhere_of query) offset limit s
            in (Inr (map (\<lambda>r. \<lparr>m_row = fst r, m_user = Some (snd r)\<rparr>) rows, map snd rows), s))"
  using assms by (simp add: groups_memberships_def authorize_def userWhere_of_def)

lemma ex_members_findByPk:
  "Group_findByPk ''g1'' ex_members_db = Some (load_group ex_members_db ex_eng)"
  by (simp add: Group_findByPk_def ex_members_db_def ex_db_def ex_eng_def)

text \<open>
  Claim C9 as stated fails: the query is pasted into the \<^verbatim>\<open>ILIKE\<close> pattern as it is, so
  \<^verbatim>\<open>_\<close>, \<^verbatim>\<open>%\<close> and the backslash in it are not literal. The query \<^verbatim>\<open>j_n\<close> returns the
  membership of Jan, whose name does not contain \<^verbatim>\<open>j_n\<close>.
\<close>

theorem groups_memberships_wildcard_counterexample:
  "groups_memberships allow_all 0 10 ex_alice ''g1'' (Some ''j_n'') ex_members_db =
     (Inr ([\<lparr>m_row = \<lparr>gu_groupId = ''g1'', gu_userId = ''u-j'', gu_createdById = ''u-a'',
                        gu_createdAt = 4\<rparr>, m_user = Some ex_jan\<rparr>], [ex_jan]), ex_members_db) \<and>
   \<not> contains_ci ''j_n'' (user_name ex_jan)"
  by code_simp

text \<open>
  Claim C9, amended: for a query without \<^verbatim>\<open>%\<close>, \<^verbatim>\<open>_\<close> and backslash. The page that
  groups.memberships returns is ordered by creation time, newest first; each of its
  rows is a membership row of the group whose user exists and is the joined user, and
  whose user's name contains the query case-insensitively when a query is given. A page
  that starts at offset 0 and is long enough holds every such row.
\<close>

theorem groups_memberships_listing:
  assumes found: "Group_findByPk gid s = Some g"
    and allowed: "can user ''read'' (group_subject g)"
    and plain: "case query of None \<Rightarrow> True | Some q \<Rightarrow> \<not> list_ex wildcard q"
  shows "\<exists>rows. groups_memberships can offset limit user gid query s =
            (Inr (map (\<lambda>r. \<lparr>m_row = fst r, m_user = Some (snd r)\<rparr>) rows, map snd rows), s) \<and>
          sorted_wrt (\<lambda>a b. gu_createdAt (fst b) \<le> gu_createdAt (fst a)) rows \<and>
          (\<forall>r\<in>set rows.
             fst r \<in> set (db_group_users s) \<and> gu_groupId (fst r) = gid \<and>
             User_findByPk (gu_userId (fst r)) s = Some (snd r) \<and>
             (case query of None \<Rightarrow> True | Some q \<Rightarrow> contains_ci q (user_name (snd r)))) \<and>
          (offset = 0 \<and> length (db_group_users s) \<le> limit \<longrightarrow>
             (\<forall>m\<in>set (db_group_users s). \<forall>u.
                gu_groupId m = gid \<and> User_findByPk (gu_userId m) s = Some u \<and>
                (case query of None \<Rightarrow> True | Some q \<Rightarrow> contains_ci q (user_name u))
                \<longrightarrow> (m, u) \<in> set rows))"
proof -
  let ?full = "List.map_filter (join_user (userWhere_of query) s)
                 (filter (\<lambda>m. gu_groupId m = gid) (db_group_users s))"
  let ?sorted = "order_by (\<lambda>r. gu_createdAt (fst r)) DESC ?full"
  let ?rows = "GroupUser_findAll gid (userWhere_of query) offset limit s"
  have rows: "?rows = paginate offset limit ?sorted"
    by (simp add: GroupUser_findAll_def)
  have full: "r \<in> set ?full \<longleftrightarrow>
      fst r \<in> set (db_group_users s) \<and> gu_groupId (fst r) = gid \<and>
      User_findByPk (gu_userId (fst r)) s = Some (snd r) \<and>
      (case query of None \<Rightarrow> True | Some q \<Rightarrow> contains_ci q (user_name (snd r)))" for r
    by (auto simp: set_map_filter join_user_Some userWhere_contains[OF plain])
  have res: "groups_memberships can offset limit user gid query s =
            (Inr (map (\<lambda>r. \<lparr>m_row = fst r, m_user = Some (snd r)\<rparr>) ?rows, map snd ?rows), s)"
    using groups_memberships_rows[where can = can and user = user, OF found allowed]
    by (simp add: Let_def)
  have sorted: "sorted_wrt (\<lambda>a b. gu_createdAt (fst b) \<le> gu_createdAt (fst a)) ?rows"
    unfolding rows by (rule sorted_wrt_paginate) (rule sorted_order_by_DESC)
  have sound: "\<forall>r\<in>set ?rows.
             fst r \<in> set (db_group_users s) \<and> gu_groupId (fst r) = gid \<and>
             User_findByPk (gu_userId (fst r)) s = Some (snd r) \<and>
             (case query of None \<Rightarrow> True | Some q \<Rightarrow> contains_ci q (user_name (snd r)))"
  proof
    fix r assume "r \<in> set ?rows"
    then have "r \<in> set ?full"
      using set_paginate[of offset limit ?sorted] unfolding rows by auto
    then show "fst r \<in> set (db_group_users s) \<and> gu_groupId (fst r) = gid \<and>
             User_findByPk (gu_userId (fst r)) s = Some (snd r) \<and>
             (case query of None \<Rightarrow> True | Some q \<Rightarrow> contains_ci q (user_name (snd r)))"
      by (simp only: full)
  qed
  have complete: "offset = 0 \<and> length (db_group_users s) \<le> limit \<longrightarrow>
             (\<forall>m\<in>set (db_group_users s). \<forall>u.
                gu_groupId m = gid \<and> User_findByPk (gu_userId m) s = Some u \<and>
                (case query of None \<Rightarrow> True | Some q \<Rightarrow> contains_ci q (user_name u))
                \<longrightarrow> (m, u) \<in> set ?rows)"
  proof (intro impI ballI allI)
    fix m u
    assume page: "offset = 0 \<and> length (db_group_users s) \<le> limit"
      and m: "m \<in> set (db_group_users s)"
      and mu: "gu_groupId m = gid \<and> User_findByPk (gu_userId m) s = Some u \<and>
                (case query of None \<Rightarrow> True | Some q \<Rightarrow> contains_ci q (user_name u))"
    have "length ?full \<le> length (filter (\<lambda>m. gu_groupId m = gid) (db_group_users s))"
      by (rule length_map_filter_le)
    also have "\<dots> \<le> length (db_group_users s)"
      by (rule length_filter_le)
    finally have "length ?sorted \<le> limit"
      using page by simp
    then have "paginate 0 limit ?sorted = ?sorted"
      by (intro paginate_all) simp
    then have "?rows = ?sorted"
      using page unfolding rows by simp
    moreover have "(m, u) \<in> set ?full"
      using m mu by (auto simp: full split: option.splits)
    ultimately show "(m, u) \<in> set ?rows" by simp
  qed
  show ?thesis
    using res sorted sound complete by (intro exI[of _ ?rows]) (intro conjI)
qed

theorem groups_memberships_listing_witness:
  "groups_memberships allow_all 0 10 ex_alice ''g1'' None ex_members_db =
     (Inr ([\<lparr>m_row = \<lparr>gu_groupId = ''g1'', gu_userId = ''u-j'', gu_createdById = ''u-a'',
                        gu_createdAt = 4\<rparr>, m_user = Some ex_jan\<rparr>,
            \<lparr>m_row = \<lparr>gu_groupId = ''g1'', gu_userId = ''u-a'', gu_createdById = ''u-a'',
                        gu_createdAt = 3\<rparr>, m_user = Some ex_alice\<rparr>],
           [ex_jan, ex_alice]), ex_members_db) \<and>
   groups_memberships allow_all 0 10 ex_alice ''g1'' (Some ''jan'') ex_members_db =
     (Inr ([\<lparr>m_row = \<lparr>gu_groupId = ''g1'', gu_userId = ''u-j'', gu_createdById = ''u-a'',
                        gu_createdAt = 4\<rparr>, m_user = Some ex_jan\<rparr>], [ex_jan]), ex_members_db) \<and>
   (\<exists>rows. groups_memberships allow_all 0 10 ex_alice ''g1'' (Some ''jan'') ex_members_db =
            (Inr (map (\<lambda>r. \<lparr>m_row = fst r, m_user = Some (snd r)\<rparr>) rows, map snd rows),
             ex_members_db) \<and>
          sorted_wrt (\<lambda>a b. gu_createdAt (fst b) \<le> gu_createdAt (fst a)) rows \<and>
          (\<forall>r\<in>set rows.
             fst r \<in> set (db_group_users ex_members_db) \<and> gu_groupId (fst r) = ''g1'' \<and>
             User_findByPk (gu_userId (fst r)) ex_members_db = Some (snd r) \<and>
             (case Some ''jan'' of None \<Rightarrow> True | Some q \<Rightarrow> contains_ci q (user_name (snd r)))) \<and>
          (0 = (0::nat) \<and> length (db_group_users ex_members_db) \<le> 10 \<longrightarrow>
             (\<forall>m\<in>set (db_group_users ex_members_db). \<forall>u.
                gu_groupId m = ''g1'' \<and> User_findByPk (gu_userId m) ex_members_db = Some u \<and>
                (case Some ''jan'' of None \<Rightarrow> True | Some q \<Rightarrow> contains_ci q (user_name u))
                \<longrightarrow> (m, u) \<in> set rows)))"
proof -
  have may: "allow_all ex_alice ''read'' (group_subject (load_group ex_members_db ex_eng))"
    by (simp add: allow_all_def)
  have plain: "case Some ''jan'' of None \<Rightarrow> True | Some q \<Rightarrow> \<not> list_ex wildcard q"
    by (simp add: wildcard_def)
  have all: "groups_memberships allow_all 0 10 ex_alice ''g1'' None ex_members_db =
     (Inr ([\<lparr>m_row = \<lparr>gu_groupId = ''g1'', gu_userId = ''u-j'', gu_createdById = ''u-a'',
                        gu_createdAt = 4\<rparr>, m_user = Some ex_jan\<rparr>,
            \<lparr>m_row = \<lparr>gu_groupId = ''g1'', gu_userId = ''u-a'', gu_createdById = ''u-a'',
                        gu_createdAt = 3\<rparr>, m_user = Some ex_alice\<rparr>],
           [ex_jan, ex_alice]), ex_members_db)"
    by code_simp
  have jan: "groups_memberships allow_all 0 10 ex_alice ''g1'' (Some ''jan'') ex_members_db =
     (Inr ([\<lparr>m_row = \<lparr>gu_groupId = ''g1'', gu_userId = ''u-j'', gu_createdById = ''u-a'',
                        gu_createdAt = 4\<rparr>, m_user = Some ex_jan\<rparr>], [ex_jan]), ex_members_db)"
    by code_simp
  show ?thesis
    using all jan
      groups_memberships_listing[where can = allow_all and user = ex_alice and offset = 0
        and limit = 10, OF ex_members_findByPk may plain]
    by (intro conjI) assumption+
qed

subsection \<open>PATCH groups/:id\<close>

text \<open>
  \<^verbatim>\<open>Group.findOne\<close> returns a clean instance, and neither \<^verbatim>\<open>$add\<close> nor \<^verbatim>\<open>$remove\<close>
  assigns an attribute of it. So \<^verbatim>\<open>group.changed()\<close> is false in every task: a task
  changes membership rows only, and the shared variables keep their first values.
\<close>

lemma changed_False_sync_user:
  assumes "\<not> changed (fst groupVars)"
  shows "\<exists>s'. sync_user c gid op author userModel groupVars s = (Inr groupVars, s') \<and>
              db_events s' = db_events s \<and> db_groups s' = db_groups s \<and>
              db_users s' = db_users s"
  using assms
  by (simp add: sync_user_def patch_add_def patch_remove_def Let_def group_add_user_def
      group_remove_user_def)

lemma changed_False_sync_all:
  assumes "\<not> changed (fst groupVars)"
  shows "\<exists>s'. sync_all c gid op author users groupVars s = (Inr groupVars, s') \<and>
              db_events s' = db_events s \<and> db_groups s' = db_groups s \<and>
              db_users s' = db_users s"
proof (induction users arbitrary: s)
  case Nil
  then show ?case by simp
next
  case (Cons u us)
  obtain s1 where s1: "sync_user c gid op author u groupVars s = (Inr groupVars, s1)"
      "db_events s1 = db_events s" "db_groups s1 = db_groups s" "db_users s1 = db_users s"
    using changed_False_sync_user[OF assms] by blast
  from Cons.IH[of s1] s1 show ?case by auto
qed

lemma sync_user_frame:
  assumes "\<not> changed (fst groupVars)" and "\<not> P (user_id userModel)"
  shows "filter (\<lambda>m. P (gu_userId m))
           (db_group_users (snd (sync_user c gid op author userModel groupVars s)))
         = filter (\<lambda>m. P (gu_userId m)) (db_group_users s)"
proof -
  have add: "filter (\<lambda>m. P (gu_userId m))
               (db_group_users (group_add_user (fst groupVars) userModel author (ctx_now c) s))
             = filter (\<lambda>m. P (gu_userId m)) (db_group_users s)"
  proof (cases "list_ex (\<lambda>m. gu_groupId m = group_id (dataValues (fst groupVars)) \<and>
                              gu_userId m = user_id userModel) (db_group_users s)")
    case True
    then show ?thesis
      using assms(2)
      by (simp add: group_add_user_def Let_def)
         (rule filter_map_other[where k = gu_userId], auto)
  next
    case False
    then show ?thesis
      using assms(2) by (simp add: group_add_user_def Let_def)
  qed
  have rem: "filter (\<lambda>m. P (gu_userId m))
               (db_group_users (group_remove_user (fst groupVars) userModel s))
             = filter (\<lambda>m. P (gu_userId m)) (db_group_users s)"
    using assms(2) by (auto simp: group_remove_user_def intro!: filter_cong)
  show ?thesis
    using assms(1) add rem
    by (simp add: sync_user_def patch_add_def patch_remove_def Let_def)
qed

lemma sync_all_frame:
  assumes "\<not> changed (fst groupVars)" and "\<And>u. u \<in> set users \<Longrightarrow> \<not> P (user_id u)"
  shows "filter (\<lambda>m. P (gu_userId m))
           (db_group_users (snd (sync_all c gid op author users groupVars s)))
         = filter (\<lambda>m. P (gu_userId m)) (db_group_users s)"
  using assms(2)
proof (induction users arbitrary: s)
  case Nil
  then show ?case by simp
next
  case (Cons u us)
  obtain s1 where s1: "sync_user c gid op author u groupVars s = (Inr groupVars, s1)"
    using changed_False_sync_user[OF assms(1)] by blast
  have "filter (\<lambda>m. P (gu_userId m)) (db_group_users s1)
        = filter (\<lambda>m. P (gu_userId m)) (db_group_users s)"
    using sync_user_frame[OF assms(1), of P u c gid op author s] Cons.prems s1 by simp
  moreover have "filter (\<lambda>m. P (gu_userId m))
                   (db_group_users (snd (sync_all c gid op author us groupVars s1)))
         = filter (\<lambda>m. P (gu_userId m)) (db_group_users s1)"
    using Cons.IH[of s1] Cons.prems by simp
  ultimately show ?case using s1 by simp
qed

text \<open>
  The handler in three steps: what it answers once the emails are read, the group is
  found and the user lookup is accepted.
\<close>

lemma User_findAll_strings:
  "User_findAll (map JStr emails) s = Inr (filter (\<lambda>u. user_email u \<in> set emails) (db_users s))"
proof -
  have "list_all comparable_email (map JStr emails)"
    by (simp add: list_all_iff)
  moreover have "(JStr e \<in> set (map JStr emails)) = (e \<in> set emails)" for e
    by auto
  ultimately show ?thesis
    by (simp add: User_findAll_def)
qed

lemma User_findAll_subset: "User_findAll emails s = Inr users \<Longrightarrow> set users \<subseteq> set (db_users s)"
  by (auto simp: User_findAll_def split: if_splits)

lemma groups_patch_run:
  assumes "arrayEmailAddresses body = Inr emails" and "Group_findByPk gid s = Some g"
    and "User_findAll emails s = Inr users"
  shows "groups_patch desk_uuid c gid body s =
           (Inr \<lparr>ok = True, res_group = g, res_groupUsers = GroupUser_findOne_of_group gid s,
                 res_arrayUserModels = users\<rparr>,
            case authorId desk_uuid of
              None \<Rightarrow> s
            | Some author \<Rightarrow>
                snd (sync_all c gid (opt_prop ''op'' (operation0 body)) author users
                       (g, GroupUser_findOne_of_group gid s) s))"
proof (cases "authorId desk_uuid")
  case None
  then show ?thesis
    using assms by (simp add: groups_patch_def Group_findOne_def rejectOnEmpty_def)
next
  case (Some author)
  have "\<not> changed (fst (g, GroupUser_findOne_of_group gid s))"
    using findByPk_unchanged[OF assms(2)] by simp
  from changed_False_sync_all[OF this, of c gid "opt_prop ''op'' (operation0 body)" author users s]
  obtain s' where "sync_all c gid (opt_prop ''op'' (operation0 body)) author users
          (g, GroupUser_findOne_of_group gid s) s
          = (Inr (g, GroupUser_findOne_of_group gid s), s')"
    by blast
  then show ?thesis
    using assms Some by (simp add: groups_patch_def Group_findOne_def rejectOnEmpty_def)
qed

lemma groups_patch_errors:
  "arrayEmailAddresses body = Inl e \<Longrightarrow> groups_patch desk_uuid c gid body s = (Inl e, s)"
  "arrayEmailAddresses body = Inr emails \<Longrightarrow> Group_findByPk gid s = None
     \<Longrightarrow> groups_patch desk_uuid c gid body s = (Inl NotFound, s)"
  "arrayEmailAddresses body = Inr emails \<Longrightarrow> Group_findByPk gid s = Some g
     \<Longrightarrow> User_findAll emails s = Inl e
     \<Longrightarrow> groups_patch desk_uuid c gid body s = (Inl e, s)"
  by (simp_all add: groups_patch_def Group_findOne_def rejectOnEmpty_def)

lemma groups_patch_cases:
  obtains (failed) e where "groups_patch desk_uuid c gid body s = (Inl e, s)"
  | (run) emails g users where "arrayEmailAddresses body = Inr emails"
      "Group_findByPk gid s = Some g" "User_findAll emails s = Inr users"
proof (cases "arrayEmailAddresses body")
  case (Inl e)
  then show ?thesis using failed groups_patch_errors(1) by blast
next
  case (Inr emails)
  show ?thesis
  proof (cases "Group_findByPk gid s")
    case None
    then show ?thesis using failed groups_patch_errors(2)[OF Inr] by blast
  next
    case (Some g)
    show ?thesis
    proof (cases "User_findAll emails s")
      case (Inl e)
      then show ?thesis using failed groups_patch_errors(3)[OF Inr Some] by blast
    next
      case (Inr users)
      then show ?thesis using run \<open>arrayEmailAddresses body = Inr emails\<close> Some by blast
    qed
  qed
qed

text \<open>
  Claim C1, at the scenario of the specification: the group has no members, the body asks
  to add \<^verbatim>\<open>a@x.com\<close> and \<^verbatim>\<open>b@x.com\<close>, and only the first is the email of a user. The
  handler creates the one membership row and answers \<^verbatim>\<open>ok\<close>, but the event log stays
  empty: the \<^verbatim>\<open>Event.create\<close> of the add branch is guarded by \<^verbatim>\<open>group.changed()\<close>.
\<close>

theorem groups_patch_add_emits_no_event:
  "groups_patch (Some ''desk'') ex_ctx ''g1'' (scim_body ''add'' [''a@x.com'', ''b@x.com'']) ex_db =
     (Inr \<lparr>ok = True, res_group = load_group ex_db ex_eng, res_groupUsers = None,
           res_arrayUserModels = [ex_alice]\<rparr>,
      ex_db\<lparr>db_group_users :=
               [\<lparr>gu_groupId = ''g1'', gu_userId = ''u-a'', gu_createdById = ''desk'',
                 gu_createdAt = 5\<rparr>],
             db_events := []\<rparr>)"
  by code_simp

text \<open>
  The same for every request: the handler appends no event and writes no group or user
  row, whatever the body, the store and \<^verbatim>\<open>DESK_UUID\<close> are.
\<close>

theorem groups_patch_never_emits:
  "db_events (snd (groups_patch desk_uuid c gid body s)) = db_events s \<and>
   db_groups (snd (groups_patch desk_uuid c gid body s)) = db_groups s \<and>
   db_users (snd (groups_patch desk_uuid c gid body s)) = db_users s"
proof (cases rule: groups_patch_cases[of desk_uuid c gid body s])
  case (failed e)
  then show ?thesis by simp
next
  case (run emails g users)
  have "\<not> changed (fst (g, GroupUser_findOne_of_group gid s))"
    using findByPk_unchanged[OF run(2)] by simp
  then have "db_events (snd (sync_all c gid (opt_prop ''op'' (operation0 body)) author users
                (g, GroupUser_findOne_of_group gid s) s)) = db_events s \<and>
             db_groups (snd (sync_all c gid (opt_prop ''op'' (operation0 body)) author users
                (g, GroupUser_findOne_of_group gid s) s)) = db_groups s \<and>
             db_users (snd (sync_all c gid (opt_prop ''op'' (operation0 body)) author users
                (g, GroupUser_findOne_of_group gid s) s)) = db_users s" for author
    using changed_False_sync_all[of "(g, GroupUser_findOne_of_group gid s)" c gid
        "opt_prop ''op'' (operation0 body)" author users s]
    by auto
  then show ?thesis
    unfolding groups_patch_run[OF run]
    by (cases "authorId desk_uuid") simp_all
qed

text \<open>
  Claim C5. A requested email that resolves to no user is dropped silently: the request
  has the response and the final store of the request without it, it succeeds whenever
  the group exists, and the membership rows of the users that carry none of the requested
  emails are left as they were.
\<close>

theorem groups_patch_drops_unresolved_emails:
  assumes body: "arrayEmailAddresses body = Inr (map JStr emails)"
    and body': "arrayEmailAddresses body' = Inr (map JStr (filter (resolves s) emails))"
    and op: "opt_prop ''op'' (operation0 body') = opt_prop ''op'' (operation0 body)"
  shows "groups_patch desk_uuid c gid body s = groups_patch desk_uuid c gid body' s \<and>
         (Group_findOne gid s \<noteq> None \<longrightarrow> (\<exists>r. fst (groups_patch desk_uuid c gid body s) = Inr r)) \<and>
         filter (\<lambda>m. gu_userId m \<notin> user_id ` {u \<in> set (db_users s). user_email u \<in> set emails})
             (db_group_users (snd (groups_patch desk_uuid c gid body s)))
           = filter (\<lambda>m. gu_userId m \<notin> user_id ` {u \<in> set (db_users s). user_email u \<in> set emails})
               (db_group_users s)"
proof -
  let ?users = "filter (\<lambda>u. user_email u \<in> set emails) (db_users s)"
  have users: "User_findAll (map JStr emails) s = Inr ?users"
    by (rule User_findAll_strings)
  have "filter (\<lambda>u. user_email u \<in> set (filter (resolves s) emails)) (db_users s) = ?users"
    by (auto simp: resolves_def list_ex_iff intro!: filter_cong)
  then have users': "User_findAll (map JStr (filter (resolves s) emails)) s = Inr ?users"
    by (simp add: User_findAll_strings)
  show ?thesis
  proof (cases "Group_findByPk gid s")
    case None
    then show ?thesis
      using groups_patch_errors(2)[OF body None] groups_patch_errors(2)[OF body' None]
      by (simp add: Group_findOne_def)
  next
    case (Some g)
    have unch: "\<not> changed (fst (g, GroupUser_findOne_of_group gid s))"
      using findByPk_unchanged[OF Some] by simp
    have frame: "filter (\<lambda>m. gu_userId m \<notin> user_id ` {u \<in> set (db_users s). user_email u \<in> set emails})
                   (db_group_users (snd (sync_all c gid op' author ?users
                      (g, GroupUser_findOne_of_group gid s) s)))
                 = filter (\<lambda>m. gu_userId m \<notin> user_id ` {u \<in> set (db_users s). user_email u \<in> set emails})
                     (db_group_users s)" for op' author
      by (rule sync_all_frame[OF unch, of _
            "\<lambda>i. i \<notin> user_id ` {u \<in> set (db_users s). user_email u \<in> set emails}"]) auto
    show ?thesis
      unfolding groups_patch_run[OF body Some users] groups_patch_run[OF body' Some users'] op
      using frame by (cases "authorId desk_uuid") simp_all
  qed
qed

theorem groups_patch_drops_unresolved_emails_witness:
  "groups_patch (Some ''desk'') ex_ctx ''g1'' (scim_body ''add'' [''a@x.com'', ''b@x.com'']) ex_db
     = groups_patch (Some ''desk'') ex_ctx ''g1'' (scim_body ''add'' [''a@x.com'']) ex_db \<and>
   (\<exists>r. fst (groups_patch (Some ''desk'') ex_ctx ''g1''
                (scim_body ''add'' [''a@x.com'', ''b@x.com'']) ex_db) = Inr r) \<and>
   filter (\<lambda>m. gu_userId m \<notin> user_id ` {u \<in> set (db_users ex_db).
                                            user_email u \<in> set [''a@x.com'', ''b@x.com'']})
       (db_group_users (snd (groups_patch (Some ''desk'') ex_ctx ''g1''
                (scim_body ''add'' [''a@x.com'', ''b@x.com'']) ex_db)))
     = filter (\<lambda>m. gu_userId m \<notin> user_id ` {u \<in> set (db_users ex_db).
                                            user_email u \<in> set [''a@x.com'', ''b@x.com'']})
         (db_group_users ex_db)"
proof -
  have b: "arrayEmailAddresses (scim_body ''add'' [''a@x.com'', ''b@x.com''])
             = Inr (map JStr [''a@x.com'', ''b@x.com''])"
    by (rule ex_emails)
  have "filter (resolves ex_db) [''a@x.com'', ''b@x.com''] = [''a@x.com'']"
    by (simp add: resolves_def ex_db_def ex_alice_def ex_jan_def)
  then have b': "arrayEmailAddresses (scim_body ''add'' [''a@x.com''])
             = Inr (map JStr (filter (resolves ex_db) [''a@x.com'', ''b@x.com'']))"
    by (simp only: ex_emails)
  have op: "opt_prop ''op'' (operation0 (scim_body ''add'' [''a@x.com'']))
            = opt_prop ''op'' (operation0 (scim_body ''add'' [''a@x.com'', ''b@x.com'']))"
    by (simp add: ex_op)
  have g: "Group_findOne ''g1'' ex_db \<noteq> None"
    by (simp add: Group_findOne_def ex_findByPk)
  show ?thesis
    using groups_patch_drops_unresolved_emails[OF b b' op, of "Some ''desk''" ex_ctx "''g1''"] g
    by blast
qed

lemma map_email_entries:
  "list_all email_entry es \<Longrightarrow> \<exists>emails. map_email es = Inr (map JStr emails)"
proof (induction es)
  case Nil
  then show ?case by simp
next
  case (Cons x es)
  then obtain emails where emails: "map_email es = Inr (map JStr emails)" by auto
  from Cons.prems obtain e where e: "user_email_of x = Inr (JStr e)"
    by (cases x) (auto simp: email_entry_def split: json.splits)
  have "map_email (x # es) = Inr (map JStr (e # emails))"
    using emails e by simp
  then show ?case by blast
qed

lemma shape_emails:
  assumes "operations_shape body"
  shows "\<exists>emails. arrayEmailAddresses body = Inr (map JStr emails)"
proof -
  from assms obtain op0 rest es where
    ops: "opt_prop ''Operations'' body = JArr (op0 # rest)"
    and val: "opt_prop ''value'' op0 = JArr es" and entries: "list_all email_entry es"
    by (auto simp: operations_shape_def operation_entry_def split: json.splits list.splits)
  have "arrayUsers body = JArr es"
    using ops val by (simp add: arrayUsers_def operation0_def opt_index0_def)
  then show ?thesis
    using map_email_entries[OF entries] by (simp add: arrayEmailAddresses_def)
qed

text \<open>
  Claim C10. With \<^verbatim>\<open>DESK_UUID\<close> unset (or empty) the handler leaves the store as it
  was, whatever the body: no membership is created or removed and no event is appended.
  For every well-formed body and a group that exists it still answers \<^verbatim>\<open>ok: true\<close> with
  the fetched group and the users that carry one of the requested emails.
\<close>

theorem groups_patch_without_desk_uuid:
  assumes unset: "desk_uuid = None \<or> desk_uuid = Some []"
  shows "snd (groups_patch desk_uuid c gid body s) = s \<and>
         (\<forall>g. operations_shape body \<and> Group_findOne gid s = Some g \<longrightarrow>
            (\<exists>emails. arrayEmailAddresses body = Inr (map JStr emails) \<and>
               fst (groups_patch desk_uuid c gid body s) =
                 Inr \<lparr>ok = True, res_group = g,
                       res_groupUsers = GroupUser_findOne_of_group gid s,
                       res_arrayUserModels =
                         filter (\<lambda>u. user_email u \<in> set emails) (db_users s)\<rparr>))"
proof -
  have none: "authorId desk_uuid = None"
    using unset by (auto simp: authorId_def)
  have store: "snd (groups_patch desk_uuid c gid body s) = s"
  proof (cases rule: groups_patch_cases[of desk_uuid c gid body s])
    case (failed e)
    then show ?thesis by simp
  next
    case (run emails g users)
    show ?thesis
      unfolding groups_patch_run[OF run] using none by simp
  qed
  have answer: "\<exists>emails. arrayEmailAddresses body = Inr (map JStr emails) \<and>
               fst (groups_patch desk_uuid c gid body s) =
                 Inr \<lparr>ok = True, res_group = g,
                       res_groupUsers = GroupUser_findOne_of_group gid s,
                       res_arrayUserModels =
                         filter (\<lambda>u. user_email u \<in> set emails) (db_users s)\<rparr>"
    if shape: "operations_shape body" and g: "Group_findOne gid s = Some g" for g
  proof -
    from shape_emails[OF shape] obtain emails where
      emails: "arrayEmailAddresses body = Inr (map JStr emails)" ..
    have g': "Group_findByPk gid s = Some g"
      using g by (simp add: Group_findOne_def)
    show ?thesis
      using emails groups_patch_run[OF emails g' User_findAll_strings, of desk_uuid c]
      by (intro exI[of _ emails]) simp
  qed
  show ?thesis
    using store answer by blast
qed

theorem groups_patch_without_desk_uuid_witness:
  "snd (groups_patch None ex_ctx ''g1'' (scim_body ''add'' [''a@x.com'']) ex_db) = ex_db \<and>
   operations_shape (scim_body ''add'' [''a@x.com'']) \<and>
   Group_findOne ''g1'' ex_db = Some (load_group ex_db ex_eng) \<and>
   fst (groups_patch None ex_ctx ''g1'' (scim_body ''add'' [''a@x.com'']) ex_db) =
     Inr \<lparr>ok = True, res_group = load_group ex_db ex_eng, res_groupUsers = None,
           res_arrayUserModels = [ex_alice]\<rparr>"
proof -
  have shape: "operations_shape (scim_body ''add'' [''a@x.com''])"
    by (simp add: operations_shape_def operation_entry_def email_entry_def opt_prop_def
        scim_body_def)
  have g: "Group_findOne ''g1'' ex_db = Some (load_group ex_db ex_eng)"
    by (simp add: Group_findOne_def ex_findByPk)
  have gu: "GroupUser_findOne_of_group ''g1'' ex_db = None"
    by (simp add: GroupUser_findOne_of_group_def ex_db_def)
  have us: "filter (\<lambda>u. user_email u = ''a@x.com'') (db_users ex_db) = [ex_alice]"
    by (simp add: ex_db_def ex_alice_def ex_jan_def)
  show ?thesis
    using groups_patch_without_desk_uuid[of None ex_ctx "''g1''" "scim_body ''add'' [''a@x.com'']"
        ex_db] shape g gu us
    by (auto simp: ex_emails)
qed

subsection \<open>Failing requests\<close>







lemma unchanged_on_error_simps [simp]:
  "unchanged_on_error (Inl e, s') s \<longleftrightarrow> s' = s"
  "unchanged_on_error (Inr r, s') s"
  by (simp_all add: unchanged_on_error_def)








end
